theory Spec2Isabelle
  imports Main
begin

section \<open>Strings: whitespace, case folding, splitting\<close>

text \<open>
  The payment-instruction service works on JavaScript strings. They are modelled as
  \<^typ>\<open>string\<close>. The whitespace class (\<^verbatim>\<open>\s\<close>, also used by \<^verbatim>\<open>trim\<close> and
  \<^verbatim>\<open>parseInt\<close>) and the case mapping are the ASCII part of the JavaScript ones:
  TAB, LF, VT, FF, CR and SPACE are whitespace, \<^verbatim>\<open>a\<close>..\<^verbatim>\<open>z\<close> have an upper case.
  Characters from 128 on stand for code units outside ASCII and are treated as
  caseless symbols that are not whitespace.
\<close>

definition isWhiteSpace :: "char \<Rightarrow> bool" where
  "isWhiteSpace c = (let n = (of_char c :: nat) in (9 \<le> n \<and> n \<le> 13) \<or> n = 32)"

text \<open>\<^verbatim>\<open>String.prototype.trim\<close>.\<close>

definition trim :: "string \<Rightarrow> string" where
  "trim s = rev (dropWhile isWhiteSpace (rev (dropWhile isWhiteSpace s)))"

text \<open>\<^verbatim>\<open>s.replace(/\s+/g, ' ')\<close>: every maximal run of whitespace becomes one space.\<close>

function collapseWhitespace :: "string \<Rightarrow> string" where
  "collapseWhitespace [] = []"
| "collapseWhitespace (c # cs) =
     (if isWhiteSpace c then CHR '' '' # collapseWhitespace (dropWhile isWhiteSpace cs)
      else c # collapseWhitespace cs)"
  by pat_completeness auto
termination
  by (relation "measure length") (auto simp: length_dropWhile_le less_Suc_eq_le)

definition toUpperChar :: "char \<Rightarrow> char" where
  "toUpperChar c =
     (let n = (of_char c :: nat) in if 97 \<le> n \<and> n \<le> 122 then char_of (n - 32) else c)"

text \<open>\<^verbatim>\<open>String.prototype.toUpperCase\<close>.\<close>

definition toUpperCase :: "string \<Rightarrow> string" where
  "toUpperCase s = map toUpperChar s"

text \<open>\<^verbatim>\<open>s.split(sep)\<close> for a one-character separator; \<^verbatim>\<open>''.split(' ')\<close> is \<^verbatim>\<open>['']\<close>.\<close>

fun split :: "char \<Rightarrow> string \<Rightarrow> string list" where
  "split sep [] = [[]]"
| "split sep (c # cs) =
     (if c = sep then [] # split sep cs
      else (case split sep cs of
              [] \<Rightarrow> [[c]]
            | w # ws \<Rightarrow> (c # w) # ws))"

text \<open>
  The normalisation of \<^verbatim>\<open>parseInstruction\<close>:
  \<^verbatim>\<open>instruction.trim().replace(/\s+/g, ' ').toUpperCase()\<close>, and the token sequence
  \<^verbatim>\<open>normalized.split(' ')\<close>.
\<close>

definition normalize :: "string \<Rightarrow> string" where
  "normalize instruction = toUpperCase (collapseWhitespace (trim instruction))"

definition tokens :: "string \<Rightarrow> string list" where
  "tokens instruction = split (CHR '' '') (normalize instruction)"

section \<open>Numbers\<close>

text \<open>
  A JavaScript Number is modelled as \<open>NaN\<close> or an integer: the service handles amounts
  that \<^verbatim>\<open>Number.parseInt\<close> returns and account balances, which the data model declares
  to be integers. Doubles represent integers exactly up to \<open>2 ^ 53\<close>; beyond that, and for
  fractional balances, the model says nothing. Comparisons with \<open>NaN\<close> are false and
  arithmetic on \<open>NaN\<close> gives \<open>NaN\<close>, as in JavaScript.
\<close>

datatype number = NaN | Num int

fun isNaN :: "number \<Rightarrow> bool" where
  "isNaN NaN = True"
| "isNaN (Num n) = False"

fun num_le :: "number \<Rightarrow> number \<Rightarrow> bool" where
  "num_le (Num a) (Num b) = (a \<le> b)"
| "num_le _ _ = False"

fun num_lt :: "number \<Rightarrow> number \<Rightarrow> bool" where
  "num_lt (Num a) (Num b) = (a < b)"
| "num_lt _ _ = False"

fun num_add :: "number \<Rightarrow> number \<Rightarrow> number" where
  "num_add (Num a) (Num b) = Num (a + b)"
| "num_add _ _ = NaN"

fun num_sub :: "number \<Rightarrow> number \<Rightarrow> number" where
  "num_sub (Num a) (Num b) = Num (a - b)"
| "num_sub _ _ = NaN"

definition isDigit :: "char \<Rightarrow> bool" where
  "isDigit c = (let n = (of_char c :: nat) in 48 \<le> n \<and> n \<le> 57)"

definition digitValue :: "char \<Rightarrow> int" where
  "digitValue c = int (of_char c) - 48"

definition digitsValue :: "string \<Rightarrow> int" where
  "digitsValue ds = foldl (\<lambda>acc c. 10 * acc + digitValue c) 0 ds"

text \<open>
  \<^verbatim>\<open>Number.parseInt(s, 10)\<close>: leading whitespace is skipped, one sign is read, and the
  longest run of decimal digits that follows is the value; whatever comes after the digits
  is ignored. Without a digit the result is \<open>NaN\<close>.
\<close>

definition parseInt :: "string \<Rightarrow> number" where
  "parseInt s =
     (let t = dropWhile isWhiteSpace s;
          negative = (t \<noteq> [] \<and> hd t = CHR ''-'');
          r = (if t \<noteq> [] \<and> (hd t = CHR ''-'' \<or> hd t = CHR ''+'') then tl t else t);
          ds = takeWhile isDigit r
      in if ds = [] then NaN
         else if negative then Num (- digitsValue ds) else Num (digitsValue ds))"

section \<open>Dates\<close>

text \<open>
  A Date is its time value, the milliseconds since 1970-01-01T00:00:00Z, and \<open>None\<close> for
  an invalid Date. The host supplies the clock (\<^verbatim>\<open>new Date()\<close>) and the local time zone,
  modelled as a fixed offset \<open>localTZA\<close> in milliseconds (local time is UTC plus the offset).
  \<open>daysFromCivil\<close> and \<open>civilFromDays\<close> convert between a proleptic Gregorian date and the
  day number that ECMAScript calls \<open>Day(t)\<close>.
\<close>

record host =
  currentTime :: int
  localTZA :: int

definition msPerDay :: int where
  "msPerDay = 86400000"

definition daysFromCivil :: "int \<Rightarrow> int \<Rightarrow> int \<Rightarrow> int" where
  "daysFromCivil y m d =
     (let y1 = (if m \<le> 2 then y - 1 else y);
          era = y1 div 400;
          yoe = y1 - era * 400;
          mp = (if m > 2 then m - 3 else m + 9);
          doy = (153 * mp + 2) div 5 + d - 1;
          doe = yoe * 365 + yoe div 4 - yoe div 100 + doy
      in era * 146097 + doe - 719468)"

definition civilFromDays :: "int \<Rightarrow> int \<times> int \<times> int" where
  "civilFromDays z =
     (let z1 = z + 719468;
          era = z1 div 146097;
          doe = z1 - era * 146097;
          yoe = (doe - doe div 1460 + doe div 36524 - doe div 146096) div 365;
          y = yoe + era * 400;
          doy = doe - (365 * yoe + yoe div 4 - yoe div 100);
          mp = (5 * doy + 2) div 153;
          d = doy - (153 * mp + 2) div 5 + 1;
          m = (if mp < 10 then mp + 3 else mp - 9)
      in (if m \<le> 2 then y + 1 else y, m, d))"

text \<open>ECMAScript's \<open>MakeDay\<close> for a month index and a day of the month.\<close>

definition makeDay :: "int \<Rightarrow> int \<Rightarrow> int \<Rightarrow> int" where
  "makeDay year month date =
     daysFromCivil (year + month div 12) (month mod 12 + 1) 1 + date - 1"

text \<open>
  \<^verbatim>\<open>new Date(year, monthIndex, day)\<close>: the fields are read in \<^emph>\<open>local\<close> time (and a year
  from 0 to 99 means 1900 plus that year).
\<close>

definition newDateLocal :: "host \<Rightarrow> int \<Rightarrow> int \<Rightarrow> int \<Rightarrow> int" where
  "newDateLocal h year month date =
     (let yr = (if 0 \<le> year \<and> year \<le> 99 then 1900 + year else year)
      in makeDay yr month date * msPerDay - localTZA h)"

definition getUTCFullYear :: "int \<Rightarrow> int" where
  "getUTCFullYear t = (case civilFromDays (t div msPerDay) of (y, m, d) \<Rightarrow> y)"

definition getUTCMonth :: "int \<Rightarrow> int" where
  "getUTCMonth t = (case civilFromDays (t div msPerDay) of (y, m, d) \<Rightarrow> m - 1)"

definition getUTCDate :: "int \<Rightarrow> int" where
  "getUTCDate t = (case civilFromDays (t div msPerDay) of (y, m, d) \<Rightarrow> d)"

definition getFullYear :: "host \<Rightarrow> int \<Rightarrow> int" where
  "getFullYear h t = getUTCFullYear (t + localTZA h)"

definition getMonth :: "host \<Rightarrow> int \<Rightarrow> int" where
  "getMonth h t = getUTCMonth (t + localTZA h)"

definition getDate :: "host \<Rightarrow> int \<Rightarrow> int" where
  "getDate h t = getUTCDate (t + localTZA h)"

definition daysInMonth :: "int \<Rightarrow> int \<Rightarrow> int" where
  "daysInMonth y m =
     (if m = 2 then (if y mod 4 = 0 \<and> (y mod 100 \<noteq> 0 \<or> y mod 400 = 0) then 29 else 28)
      else if m = 4 \<or> m = 6 \<or> m = 9 \<or> m = 11 then 30 else 31)"

text \<open>
  \<^verbatim>\<open>new Date(`${dateStr}T00:00:00.000Z`)\<close>: for \<open>dateStr\<close> of the shape \<^verbatim>\<open>YYYY-MM-DD\<close>
  (digits only) that names a calendar date, the time value of that date's UTC midnight.
  Every other string is modelled as an invalid Date; ECMAScript leaves what an engine
  does with a string outside the date-time format to the engine.
\<close>

definition parseDateUTCMidnight :: "string \<Rightarrow> int option" where
  "parseDateUTCMidnight dateStr =
     (if length dateStr = 10 \<and> dateStr ! 4 = CHR ''-'' \<and> dateStr ! 7 = CHR ''-''
         \<and> list_all isDigit (take 4 dateStr) \<and> list_all isDigit (take 2 (drop 5 dateStr))
         \<and> list_all isDigit (drop 8 dateStr)
      then (let y = digitsValue (take 4 dateStr);
                m = digitsValue (take 2 (drop 5 dateStr));
                d = digitsValue (drop 8 dateStr)
            in if 1 \<le> m \<and> m \<le> 12 \<and> 1 \<le> d \<and> d \<le> daysInMonth y m
               then Some (daysFromCivil y m d * msPerDay) else None)
      else None)"

text \<open>
  Two notions for reasoning about these conversions: the days before year \<open>y\<close> of a
  400-year era, and the year of the era that \<open>civilFromDays\<close> computes for a day of the era.
\<close>

definition daysBeforeYear :: "int \<Rightarrow> int" where
  "daysBeforeYear y = 365 * y + y div 4 - y div 100"

definition yearOfEra :: "int \<Rightarrow> int" where
  "yearOfEra doe = (doe - doe div 1460 + doe div 36524 - doe div 146096) div 365"

section \<open>Status codes and data\<close>

datatype code =
  AM01 | CU01 | CU02 | AC01 | AC02 | AC03 | AC04 | DT01 | SY01 | SY02 | SY03 | AP00 | AP02

fun STATUS_CODES :: "code \<Rightarrow> string" where
  "STATUS_CODES AM01 = ''Amount must be a positive integer''"
| "STATUS_CODES CU01 = ''Account currency mismatch''"
| "STATUS_CODES CU02 = ''Unsupported currency. Only NGN, USD, GBP, and GHS are supported''"
| "STATUS_CODES AC01 = ''Insufficient funds in debit account''"
| "STATUS_CODES AC02 = ''Debit and credit accounts cannot be the same''"
| "STATUS_CODES AC03 = ''Account not found''"
| "STATUS_CODES AC04 = ''Invalid account ID format''"
| "STATUS_CODES DT01 = ''Invalid date format''"
| "STATUS_CODES SY01 = ''Missing required keyword''"
| "STATUS_CODES SY02 = ''Invalid keyword order''"
| "STATUS_CODES SY03 = ''Malformed instruction: unable to parse keywords''"
| "STATUS_CODES AP00 = ''Transaction executed successfully''"
| "STATUS_CODES AP02 = ''Transaction scheduled for future execution''"

definition SUPPORTED_CURRENCIES :: "string list" where
  "SUPPORTED_CURRENCIES = [''NGN'', ''USD'', ''GBP'', ''GHS'']"

text \<open>
  A property of an object that is \<^verbatim>\<open>undefined\<close> (also: that the object does not have),
  \<^verbatim>\<open>null\<close>, or holds a value.
\<close>

datatype 'a js = Undefined | Null | Val 'a

text \<open>
  An account object: \<^verbatim>\<open>{ id, balance, currency }\<close>, and \<^verbatim>\<open>balance_before\<close> where the
  object has that property. The accounts of the caller, the objects that
  \<^verbatim>\<open>executeTransaction\<close> builds and the entries of the response's \<^verbatim>\<open>accounts\<close> all have
  this shape.
\<close>

record account =
  acc_id :: string
  balance :: number
  acc_currency :: string
  balance_before :: "number option"

text \<open>
  The fields a grammar recogniser extracts; \<^verbatim>\<open>parseInstruction\<close> adds the type.
  \<open>execute_by = None\<close> is \<^verbatim>\<open>null\<close>.
\<close>

record instruction_fields =
  amount :: string
  currency :: string
  debit_account :: string
  credit_account :: string
  execute_by :: "string option"

record parsed_data = instruction_fields +
  instruction_type :: string

text \<open>
  A failure object \<^verbatim>\<open>{ success: false, error_message, error_code }\<close>. The failures
  that \<^verbatim>\<open>parseInstruction\<close> builds itself also carry the six instruction fields, as
  \<^verbatim>\<open>null\<close>; the failures of the two recognisers do not have these properties, so
  reading them gives \<^verbatim>\<open>undefined\<close>.
\<close>

record rule_failure =
  error_message :: string
  error_code :: code

record parse_failure = rule_failure +
  f_type :: "string js"
  f_amount :: "string js"
  f_currency :: "string js"
  f_debit_account :: "string js"
  f_credit_account :: "string js"
  f_execute_by :: "string js"

record response =
  r_type :: "string js"
  r_amount :: "number js"
  r_currency :: "string js"
  r_debit_account :: "string js"
  r_credit_account :: "string js"
  r_execute_by :: "string js"
  status :: string
  status_reason :: string
  status_code :: code
  accounts :: "account list"

record settlement =
  s_status :: string
  s_status_reason :: string
  s_status_code :: code
  s_accounts :: "account list"

text \<open>
  The request body. \<open>instruction\<close> may be any JSON value; \<open>JObject\<close> stands for every
  object and array. \<open>accounts\<close> is missing (or another falsy value), a truthy value that
  is not an array, or an array of account objects as the data model declares them (\<open>id\<close>
  and \<open>currency\<close> strings, \<open>balance\<close> a number).
\<close>

datatype jsval = JUndefined | JNull | JBool bool | JNumber int | JString string | JObject

fun truthy :: "jsval \<Rightarrow> bool" where
  "truthy JUndefined = False"
| "truthy JNull = False"
| "truthy (JBool b) = b"
| "truthy (JNumber n) = (n \<noteq> 0)"
| "truthy (JString s) = (s \<noteq> [])"
| "truthy JObject = True"

datatype accounts_value = AccountsMissing | AccountsNotArray | AccountsArray "account list"

fun truthyAccounts :: "accounts_value \<Rightarrow> bool" where
  "truthyAccounts AccountsMissing = False"
| "truthyAccounts AccountsNotArray = True"
| "truthyAccounts (AccountsArray xs) = True"

record payload =
  instruction :: jsval
  payload_accounts :: accounts_value

text \<open>
  Calling an array method on a value that is not an array throws a \<open>TypeError\<close>.
\<close>

datatype js_error = TypeError

definition array_find :: "accounts_value \<Rightarrow> (account \<Rightarrow> bool) \<Rightarrow> js_error + account option" where
  "array_find as p = (case as of AccountsArray xs \<Rightarrow> Inr (find p xs) | _ \<Rightarrow> Inl TypeError)"

definition array_map :: "accounts_value \<Rightarrow> (account \<Rightarrow> account) \<Rightarrow> js_error + account list" where
  "array_map as f = (case as of AccountsArray xs \<Rightarrow> Inr (map f xs) | _ \<Rightarrow> Inl TypeError)"

section \<open>Keyword locator and helpers\<close>

text \<open>
  \<^verbatim>\<open>findKeywordIndex(parts, keyword, startFrom)\<close>. The recognisers pass the index of
  the previous anchor as \<open>startFrom\<close>, which is \<open>-1\<close> when that anchor was not found;
  \<^verbatim>\<open>parts[-1]\<close> is \<^verbatim>\<open>undefined\<close> and equals no keyword, so the scan goes on at 0.
\<close>

function findKeywordIndex :: "string list \<Rightarrow> string \<Rightarrow> int \<Rightarrow> int" where
  "findKeywordIndex parts keyword i =
     (if i < int (length parts)
      then (if 0 \<le> i \<and> parts ! nat i = keyword then i
            else findKeywordIndex parts keyword (i + 1))
      else - 1)"
  by pat_completeness auto
termination
  by (relation "measure (\<lambda>(parts, keyword, i). nat (int (length parts) - i))") auto

declare findKeywordIndex.simps [simp del]

text \<open>
  \<^verbatim>\<open>extractAccountId(originalInstruction, accountPosition, parts)\<close>; the position is an
  anchor's index plus one, so it is not negative.
\<close>

definition extractAccountId :: "string \<Rightarrow> nat \<Rightarrow> string list \<Rightarrow> string" where
  "extractAccountId originalInstruction accountPosition parts =
     (let normalizedParts = split (CHR '' '') (collapseWhitespace (trim originalInstruction))
      in if accountPosition < length normalizedParts then normalizedParts ! accountPosition
         else if accountPosition < length parts \<and> parts ! accountPosition \<noteq> []
              then parts ! accountPosition
              else [])"

definition isAccountIdChar :: "char \<Rightarrow> bool" where
  "isAccountIdChar c =
     (let n = (of_char c :: nat)
      in (97 \<le> n \<and> n \<le> 122) \<or> (65 \<le> n \<and> n \<le> 90) \<or> (48 \<le> n \<and> n \<le> 57)
         \<or> c = CHR ''.'' \<or> c = CHR ''@'' \<or> c = CHR ''-'')"

primrec allAccountIdChars :: "string \<Rightarrow> bool" where
  "allAccountIdChars [] = True"
| "allAccountIdChars (c # cs) = (if isAccountIdChar c then allAccountIdChars cs else False)"

definition isValidAccountId :: "string \<Rightarrow> bool" where
  "isValidAccountId accountId = (if accountId = [] then False else allAccountIdChars accountId)"

definition isValidDate :: "host \<Rightarrow> string \<Rightarrow> bool" where
  "isValidDate h dateStr =
     (if dateStr = [] then False
      else if length dateStr \<noteq> 10 \<or> dateStr ! 4 \<noteq> CHR ''-'' \<or> dateStr ! 7 \<noteq> CHR ''-''
      then False
      else (let parts = split (CHR ''-'') dateStr
            in if length parts \<noteq> 3 then False
               else (case (parseInt (parts ! 0), parseInt (parts ! 1), parseInt (parts ! 2)) of
                       (Num year, Num month, Num day) \<Rightarrow>
                         if year < 1000 \<or> year > 9999 then False
                         else if month < 1 \<or> month > 12 then False
                         else if day < 1 \<or> day > 31 then False
                         else (let date = newDateLocal h year (month - 1) day
                               in getFullYear h date = year \<and> getMonth h date = month - 1
                                  \<and> getDate h date = day)
                     | _ \<Rightarrow> False)))"

definition isDateInPastOrToday :: "host \<Rightarrow> string \<Rightarrow> bool" where
  "isDateInPastOrToday h dateStr =
     (let targetDate = parseDateUTCMidnight dateStr;
          today = currentTime h;
          todayUTC = newDateLocal h (getUTCFullYear today) (getUTCMonth today) (getUTCDate today)
      in case targetDate of None \<Rightarrow> False | Some t \<Rightarrow> t \<le> todayUTC)"

section \<open>Response builder\<close>

definition accountResponse :: "bool \<Rightarrow> account \<Rightarrow> account" where
  "accountResponse includeBalanceBefore acc =
     \<lparr>acc_id = acc_id acc, balance = balance acc, acc_currency = toUpperCase (acc_currency acc),
      balance_before =
        (if includeBalanceBefore
         then (case balance_before acc of Some b \<Rightarrow> Some b | None \<Rightarrow> Some (balance acc))
         else Some (balance acc))\<rparr>"

text \<open>The body of \<^verbatim>\<open>accounts.forEach\<close>, pushing onto \<open>result\<close> in the array's order.\<close>

primrec accountsResponseLoop :: "account list \<Rightarrow> string \<Rightarrow> string \<Rightarrow> bool \<Rightarrow> account list" where
  "accountsResponseLoop [] debitAccountId creditAccountId includeBalanceBefore = []"
| "accountsResponseLoop (acc # rest) debitAccountId creditAccountId includeBalanceBefore =
     (if acc_id acc = debitAccountId \<or> acc_id acc = creditAccountId
      then accountResponse includeBalanceBefore acc
           # accountsResponseLoop rest debitAccountId creditAccountId includeBalanceBefore
      else accountsResponseLoop rest debitAccountId creditAccountId includeBalanceBefore)"

definition createAccountsResponse ::
  "accounts_value \<Rightarrow> string \<Rightarrow> string \<Rightarrow> bool \<Rightarrow> js_error + account list" where
  "createAccountsResponse as debitAccountId creditAccountId includeBalanceBefore =
     (case as of
        AccountsArray xs \<Rightarrow>
          Inr (accountsResponseLoop xs debitAccountId creditAccountId includeBalanceBefore)
      | _ \<Rightarrow> Inl TypeError)"

definition createErrorResponse ::
  "string js \<Rightarrow> string js \<Rightarrow> string js \<Rightarrow> string js \<Rightarrow> string js \<Rightarrow> string js \<Rightarrow>
   string \<Rightarrow> string \<Rightarrow> code \<Rightarrow> account list \<Rightarrow> response" where
  "createErrorResponse type amt cur debitAccount creditAccount executeBy
     st statusReason statusCode accs =
     \<lparr>r_type = type,
      r_amount = (case amt of
                    Val a \<Rightarrow> if a \<noteq> [] then (if isNaN (parseInt a) then Null else Val (parseInt a))
                             else Null
                  | _ \<Rightarrow> Null),
      r_currency = (case cur of
                      Val c \<Rightarrow> if c \<noteq> [] then Val (toUpperCase c) else Null
                    | _ \<Rightarrow> Null),
      r_debit_account = debitAccount,
      r_credit_account = creditAccount,
      r_execute_by = executeBy,
      status = st,
      status_reason = statusReason,
      status_code = statusCode,
      accounts = accs\<rparr>"

fun nullable :: "'a option \<Rightarrow> 'a js" where
  "nullable None = Null"
| "nullable (Some x) = Val x"

definition createSuccessResponse ::
  "parsed_data \<Rightarrow> string \<Rightarrow> string \<Rightarrow> code \<Rightarrow> account list \<Rightarrow> response" where
  "createSuccessResponse parsedData st statusReason statusCode accs =
     \<lparr>r_type = Val (instruction_type parsedData),
      r_amount = Val (parseInt (amount parsedData)),
      r_currency = Val (toUpperCase (currency parsedData)),
      r_debit_account = Val (debit_account parsedData),
      r_credit_account = Val (credit_account parsedData),
      r_execute_by = nullable (execute_by parsedData),
      status = st,
      status_reason = statusReason,
      status_code = statusCode,
      accounts = accs\<rparr>"

section \<open>Grammar parser\<close>

definition recogniserFailure :: "code \<Rightarrow> parse_failure" where
  "recogniserFailure c =
     \<lparr>error_message = STATUS_CODES c, error_code = c, f_type = Undefined, f_amount = Undefined,
      f_currency = Undefined, f_debit_account = Undefined, f_credit_account = Undefined,
      f_execute_by = Undefined\<rparr>"

definition instructionFailure :: "code \<Rightarrow> parse_failure" where
  "instructionFailure c =
     \<lparr>error_message = STATUS_CODES c, error_code = c, f_type = Null, f_amount = Null,
      f_currency = Null, f_debit_account = Null, f_credit_account = Null,
      f_execute_by = Null\<rparr>"

text \<open>
  The anchors of the DEBIT form, in the order the recogniser declares them:
  \<open>fromIndex\<close>, \<open>accountIndex1\<close>, \<open>forIndex\<close>, \<open>creditIndex\<close>, \<open>toIndex\<close>, \<open>accountIndex2\<close>.
\<close>

definition debitAnchors :: "string list \<Rightarrow> int \<times> int \<times> int \<times> int \<times> int \<times> int" where
  "debitAnchors parts =
     (let fromIndex = findKeywordIndex parts ''FROM'' 0;
          accountIndex1 = findKeywordIndex parts ''ACCOUNT'' fromIndex;
          forIndex = findKeywordIndex parts ''FOR'' 0;
          creditIndex = findKeywordIndex parts ''CREDIT'' forIndex;
          toIndex = findKeywordIndex parts ''TO'' creditIndex;
          accountIndex2 = findKeywordIndex parts ''ACCOUNT'' toIndex
      in (fromIndex, accountIndex1, forIndex, creditIndex, toIndex, accountIndex2))"

text \<open>
  The anchors of the CREDIT form: \<open>toIndex\<close>, \<open>accountIndex1\<close>, \<open>forIndex\<close>, \<open>debitIndex\<close>,
  \<open>fromIndex\<close>, \<open>accountIndex2\<close>.
\<close>

definition creditAnchors :: "string list \<Rightarrow> int \<times> int \<times> int \<times> int \<times> int \<times> int" where
  "creditAnchors parts =
     (let toIndex = findKeywordIndex parts ''TO'' 0;
          accountIndex1 = findKeywordIndex parts ''ACCOUNT'' toIndex;
          forIndex = findKeywordIndex parts ''FOR'' 0;
          debitIndex = findKeywordIndex parts ''DEBIT'' forIndex;
          fromIndex = findKeywordIndex parts ''FROM'' debitIndex;
          accountIndex2 = findKeywordIndex parts ''ACCOUNT'' fromIndex
      in (toIndex, accountIndex1, forIndex, debitIndex, fromIndex, accountIndex2))"

text \<open>
  The optional anchor: \<^verbatim>\<open>findKeywordIndex(parts, 'ON', accountIndex2)\<close>, and the token
  after it, or \<^verbatim>\<open>null\<close>.
\<close>

definition onIndexOf :: "string list \<Rightarrow> int \<times> int \<times> int \<times> int \<times> int \<times> int \<Rightarrow> int" where
  "onIndexOf parts anchors =
     (case anchors of (i1, i2, i3, i4, i5, accountIndex2) \<Rightarrow>
        findKeywordIndex parts ''ON'' accountIndex2)"

definition executeByOf :: "string list \<Rightarrow> int \<Rightarrow> string option" where
  "executeByOf parts onIndex =
     (if onIndex \<noteq> - 1 \<and> onIndex + 1 < int (length parts)
      then Some (parts ! nat (onIndex + 1)) else None)"

text \<open>
  \<^verbatim>\<open>parseDebitInstruction(parts, originalInstruction)\<close>. Nothing in its body throws on
  an array of strings, so its \<^verbatim>\<open>catch\<close> branch (SY03) has no counterpart here.
\<close>

definition parseDebitInstruction :: "string list \<Rightarrow> string \<Rightarrow> parse_failure + instruction_fields" where
  "parseDebitInstruction parts originalInstruction =
     (case debitAnchors parts of
        (fromIndex, accountIndex1, forIndex, creditIndex, toIndex, accountIndex2) \<Rightarrow>
          (let onIndex = findKeywordIndex parts ''ON'' accountIndex2
           in if fromIndex = - 1 \<or> accountIndex1 = - 1 \<or> forIndex = - 1 \<or> creditIndex = - 1
                 \<or> toIndex = - 1 \<or> accountIndex2 = - 1
              then Inl (recogniserFailure SY01)
              else if \<not> (fromIndex < accountIndex1 \<and> accountIndex1 < forIndex
                          \<and> forIndex < creditIndex \<and> creditIndex < toIndex
                          \<and> toIndex < accountIndex2)
              then Inl (recogniserFailure SY02)
              else Inr \<lparr>amount = parts ! 1,
                        currency = parts ! 2,
                        debit_account =
                          extractAccountId originalInstruction (nat (accountIndex1 + 1)) parts,
                        credit_account =
                          extractAccountId originalInstruction (nat (accountIndex2 + 1)) parts,
                        execute_by = executeByOf parts onIndex\<rparr>))"

text \<open>\<^verbatim>\<open>parseCreditInstruction(parts, originalInstruction)\<close>, likewise.\<close>

definition parseCreditInstruction :: "string list \<Rightarrow> string \<Rightarrow> parse_failure + instruction_fields" where
  "parseCreditInstruction parts originalInstruction =
     (case creditAnchors parts of
        (toIndex, accountIndex1, forIndex, debitIndex, fromIndex, accountIndex2) \<Rightarrow>
          (let onIndex = findKeywordIndex parts ''ON'' accountIndex2
           in if toIndex = - 1 \<or> accountIndex1 = - 1 \<or> forIndex = - 1 \<or> debitIndex = - 1
                 \<or> fromIndex = - 1 \<or> accountIndex2 = - 1
              then Inl (recogniserFailure SY01)
              else if \<not> (toIndex < accountIndex1 \<and> accountIndex1 < forIndex
                          \<and> forIndex < debitIndex \<and> debitIndex < fromIndex
                          \<and> fromIndex < accountIndex2)
              then Inl (recogniserFailure SY02)
              else Inr \<lparr>amount = parts ! 1,
                        currency = parts ! 2,
                        debit_account =
                          extractAccountId originalInstruction (nat (accountIndex2 + 1)) parts,
                        credit_account =
                          extractAccountId originalInstruction (nat (accountIndex1 + 1)) parts,
                        execute_by = executeByOf parts onIndex\<rparr>))"

definition withType :: "string \<Rightarrow> instruction_fields \<Rightarrow> parsed_data" where
  "withType t d =
     \<lparr>amount = amount d, currency = currency d, debit_account = debit_account d,
      credit_account = credit_account d, execute_by = execute_by d, instruction_type = t\<rparr>"

definition parseInstruction :: "jsval \<Rightarrow> parse_failure + parsed_data" where
  "parseInstruction instr =
     (case instr of
        JString s \<Rightarrow>
          if s = [] then Inl (instructionFailure SY03)
          else (let normalized = toUpperCase (collapseWhitespace (trim s));
                    parts = split (CHR '' '') normalized
                in if length parts < 8 then Inl (instructionFailure SY03)
                   else if parts ! 0 = ''DEBIT''
                   then (case parseDebitInstruction parts s of
                           Inl debitResult \<Rightarrow> Inl debitResult
                         | Inr d \<Rightarrow> Inr (withType ''DEBIT'' d))
                   else if parts ! 0 = ''CREDIT''
                   then (case parseCreditInstruction parts s of
                           Inl creditResult \<Rightarrow> Inl creditResult
                         | Inr d \<Rightarrow> Inr (withType ''CREDIT'' d))
                   else Inl (instructionFailure SY01))
      | _ \<Rightarrow> Inl (instructionFailure SY03))"

section \<open>Business rule validator\<close>

definition ruleFailure :: "code \<Rightarrow> rule_failure" where
  "ruleFailure c = \<lparr>error_message = STATUS_CODES c, error_code = c\<rparr>"

text \<open>
  \<^verbatim>\<open>validateBusinessRules(parsedData, accounts)\<close>; \<open>Inr None\<close> is \<^verbatim>\<open>{ success: true }\<close>.
  The host is a parameter because \<^verbatim>\<open>isValidDate\<close> builds a local Date.
\<close>

definition validateBusinessRules ::
  "host \<Rightarrow> parsed_data \<Rightarrow> accounts_value \<Rightarrow> js_error + rule_failure option" where
  "validateBusinessRules h parsedData as =
     (let rawAmount = amount parsedData;
          cur = currency parsedData;
          debitAccount = debit_account parsedData;
          creditAccount = credit_account parsedData;
          executeBy = execute_by parsedData;
          parsedAmount = parseInt rawAmount
      in if rawAmount = [] \<or> isNaN parsedAmount \<or> num_le parsedAmount (Num 0)
            \<or> CHR ''.'' \<in> set rawAmount
         then Inr (Some (ruleFailure AM01))
         else if cur = [] \<or> toUpperCase cur \<notin> set SUPPORTED_CURRENCIES
         then Inr (Some (ruleFailure CU02))
         else if \<not> isValidAccountId debitAccount \<or> \<not> isValidAccountId creditAccount
         then Inr (Some (ruleFailure AC04))
         else if debitAccount = creditAccount
         then Inr (Some (ruleFailure AC02))
         else (case array_find as (\<lambda>acc. acc_id acc = debitAccount) of
                 Inl e \<Rightarrow> Inl e
               | Inr debitAcc \<Rightarrow>
                   (case array_find as (\<lambda>acc. acc_id acc = creditAccount) of
                      Inl e \<Rightarrow> Inl e
                    | Inr creditAcc \<Rightarrow>
                        (case (debitAcc, creditAcc) of
                           (Some d, Some c) \<Rightarrow>
                             if toUpperCase (acc_currency d) \<noteq> toUpperCase (acc_currency c)
                                \<or> toUpperCase (acc_currency d) \<noteq> toUpperCase cur
                             then Inr (Some (ruleFailure CU01))
                             else if num_lt (balance d) parsedAmount
                             then Inr (Some (ruleFailure AC01))
                             else (case executeBy of
                                     Some e \<Rightarrow>
                                       if e \<noteq> [] \<and> \<not> isValidDate h e
                                       then Inr (Some (ruleFailure DT01))
                                       else Inr None
                                   | None \<Rightarrow> Inr None)
                         | _ \<Rightarrow> Inr (Some (ruleFailure AC03))))))"

section \<open>Settlement executor\<close>

definition shouldExecuteNow :: "host \<Rightarrow> string option \<Rightarrow> bool" where
  "shouldExecuteNow h executeBy =
     (case executeBy of
        None \<Rightarrow> True
      | Some e \<Rightarrow> e = [] \<or> isDateInPastOrToday h e)"

text \<open>The function that \<^verbatim>\<open>executeTransaction\<close> maps over the accounts.\<close>

definition updateAccount :: "string \<Rightarrow> string \<Rightarrow> number \<Rightarrow> account \<Rightarrow> account" where
  "updateAccount debitAccount creditAccount parsedAmount acc =
     (if acc_id acc = debitAccount
      then acc\<lparr>balance_before := Some (balance acc),
               balance := num_sub (balance acc) parsedAmount,
               acc_currency := toUpperCase (acc_currency acc)\<rparr>
      else if acc_id acc = creditAccount
      then acc\<lparr>balance_before := Some (balance acc),
               balance := num_add (balance acc) parsedAmount,
               acc_currency := toUpperCase (acc_currency acc)\<rparr>
      else acc\<lparr>balance_before := Some (balance acc),
               acc_currency := toUpperCase (acc_currency acc)\<rparr>)"

definition executeTransaction ::
  "host \<Rightarrow> parsed_data \<Rightarrow> accounts_value \<Rightarrow> js_error + settlement" where
  "executeTransaction h parsedData as =
     (let rawAmount = amount parsedData;
          executeBy = execute_by parsedData;
          debitAccount = debit_account parsedData;
          creditAccount = credit_account parsedData;
          parsedAmount = parseInt rawAmount
      in if shouldExecuteNow h executeBy
         then (case array_map as (updateAccount debitAccount creditAccount parsedAmount) of
                 Inl e \<Rightarrow> Inl e
               | Inr updatedAccounts \<Rightarrow>
                   (case createAccountsResponse (AccountsArray updatedAccounts)
                           debitAccount creditAccount True of
                      Inl e \<Rightarrow> Inl e
                    | Inr views \<Rightarrow>
                        Inr \<lparr>s_status = ''successful'', s_status_reason = STATUS_CODES AP00,
                             s_status_code = AP00, s_accounts = views\<rparr>))
         else (case createAccountsResponse as debitAccount creditAccount False of
                 Inl e \<Rightarrow> Inl e
               | Inr views \<Rightarrow>
                   Inr \<lparr>s_status = ''pending'', s_status_reason = STATUS_CODES AP02,
                        s_status_code = AP02, s_accounts = views\<rparr>))"

section \<open>The service\<close>

definition malformedResponse :: response where
  "malformedResponse =
     createErrorResponse Null Null Null Null Null Null ''failed'' (STATUS_CODES SY03) SY03 []"

text \<open>
  The body of the \<^verbatim>\<open>try\<close> block of \<^verbatim>\<open>paymentInstructionService\<close>; \<open>Inl\<close> is an
  exception thrown in it. \<open>None\<close> is a payload that is \<^verbatim>\<open>undefined\<close> or \<^verbatim>\<open>null\<close>.
\<close>

definition serviceBody :: "host \<Rightarrow> payload option \<Rightarrow> js_error + response" where
  "serviceBody h payload =
     (case payload of
        None \<Rightarrow> Inr malformedResponse
      | Some p \<Rightarrow>
          if \<not> truthyAccounts (payload_accounts p) \<or> \<not> truthy (instruction p)
          then Inr malformedResponse
          else (case parseInstruction (instruction p) of
                  Inl parseResult \<Rightarrow>
                    Inr (createErrorResponse (f_type parseResult) (f_amount parseResult)
                          (f_currency parseResult) (f_debit_account parseResult)
                          (f_credit_account parseResult) (f_execute_by parseResult)
                          ''failed'' (error_message parseResult) (error_code parseResult) [])
                | Inr parsedData \<Rightarrow>
                    (case validateBusinessRules h parsedData (payload_accounts p) of
                       Inl e \<Rightarrow> Inl e
                     | Inr (Some validationResult) \<Rightarrow>
                         (case createAccountsResponse (payload_accounts p)
                                 (debit_account parsedData) (credit_account parsedData) False of
                            Inl e \<Rightarrow> Inl e
                          | Inr views \<Rightarrow>
                              Inr (createErrorResponse (Val (instruction_type parsedData))
                                    (Val (amount parsedData)) (Val (currency parsedData))
                                    (Val (debit_account parsedData))
                                    (Val (credit_account parsedData))
                                    (nullable (execute_by parsedData))
                                    ''failed'' (error_message validationResult)
                                    (error_code validationResult) views))
                     | Inr None \<Rightarrow>
                         (case executeTransaction h parsedData (payload_accounts p) of
                            Inl e \<Rightarrow> Inl e
                          | Inr executionResult \<Rightarrow>
                              Inr (createSuccessResponse parsedData (s_status executionResult)
                                    (s_status_reason executionResult)
                                    (s_status_code executionResult)
                                    (s_accounts executionResult))))))"

text \<open>\<^verbatim>\<open>paymentInstructionService(payload)\<close>: the \<^verbatim>\<open>catch\<close> turns an exception into SY03.\<close>

definition paymentInstructionService :: "host \<Rightarrow> payload option \<Rightarrow> response" where
  "paymentInstructionService h payload =
     (case serviceBody h payload of
        Inl e \<Rightarrow> malformedResponse
      | Inr r \<Rightarrow> r)"

section \<open>Account objects in a store\<close>

text \<open>
  The functions above compute with values. To say that the caller's account objects and
  the caller's array are not written to, the two functions that build account lists are
  also given over a store of cells: an address is an index into the store, an object
  literal and an array literal allocate a new cell at the end, \<^verbatim>\<open>result.push\<close>
  overwrites the cell of \<open>result\<close>. \<open>None\<close> is a \<open>TypeError\<close> (the value is not an array
  of account objects).
\<close>

type_synonym addr = nat

datatype cell = Object account | Array "addr list"

type_synonym store = "cell list"

definition allocate :: "store \<Rightarrow> cell \<Rightarrow> store \<times> addr" where
  "allocate st c = (st @ [c], length st)"

definition objectAt :: "store \<Rightarrow> addr \<Rightarrow> account option" where
  "objectAt st a =
     (if a < length st then (case st ! a of Object acc \<Rightarrow> Some acc | Array xs \<Rightarrow> None)
      else None)"

definition arrayAt :: "store \<Rightarrow> addr \<Rightarrow> addr list option" where
  "arrayAt st a =
     (if a < length st then (case st ! a of Array xs \<Rightarrow> Some xs | Object acc \<Rightarrow> None)
      else None)"

definition push :: "store \<Rightarrow> addr \<Rightarrow> addr \<Rightarrow> store option" where
  "push st arr x =
     (case arrayAt st arr of
        None \<Rightarrow> None
      | Some xs \<Rightarrow> Some (st[arr := Array (xs @ [x])]))"

text \<open>The account objects of an array, in order.\<close>

fun readObjects :: "store \<Rightarrow> addr list \<Rightarrow> account list option" where
  "readObjects st [] = Some []"
| "readObjects st (a # rest) =
     (case objectAt st a of
        None \<Rightarrow> None
      | Some acc \<Rightarrow> (case readObjects st rest of None \<Rightarrow> None | Some accs \<Rightarrow> Some (acc # accs)))"

definition readAccounts :: "store \<Rightarrow> addr \<Rightarrow> account list option" where
  "readAccounts st arr =
     (case arrayAt st arr of None \<Rightarrow> None | Some elems \<Rightarrow> readObjects st elems)"

text \<open>The \<^verbatim>\<open>forEach\<close> of \<^verbatim>\<open>createAccountsResponse\<close> over the elements of \<open>accounts\<close>.\<close>

fun forEachStore ::
  "store \<Rightarrow> addr \<Rightarrow> string \<Rightarrow> string \<Rightarrow> bool \<Rightarrow> addr list \<Rightarrow> store option" where
  "forEachStore st result debitAccountId creditAccountId includeBalanceBefore [] = Some st"
| "forEachStore st result debitAccountId creditAccountId includeBalanceBefore (a # rest) =
     (case objectAt st a of
        None \<Rightarrow> None
      | Some acc \<Rightarrow>
          if acc_id acc = debitAccountId \<or> acc_id acc = creditAccountId
          then (case allocate st (Object (accountResponse includeBalanceBefore acc)) of
                  (st1, r) \<Rightarrow>
                    (case push st1 result r of
                       None \<Rightarrow> None
                     | Some st2 \<Rightarrow>
                         forEachStore st2 result debitAccountId creditAccountId
                           includeBalanceBefore rest))
          else forEachStore st result debitAccountId creditAccountId includeBalanceBefore rest)"

definition createAccountsResponseStore ::
  "store \<Rightarrow> addr \<Rightarrow> string \<Rightarrow> string \<Rightarrow> bool \<Rightarrow> (store \<times> addr) option" where
  "createAccountsResponseStore st accs debitAccountId creditAccountId includeBalanceBefore =
     (case arrayAt st accs of
        None \<Rightarrow> None
      | Some elems \<Rightarrow>
          (case allocate st (Array []) of
             (st1, result) \<Rightarrow>
               (case forEachStore st1 result debitAccountId creditAccountId
                       includeBalanceBefore elems of
                  None \<Rightarrow> None
                | Some st2 \<Rightarrow> Some (st2, result))))"

text \<open>\<^verbatim>\<open>accounts.map(f)\<close>: a new object for every element, then a new array.\<close>

fun mapObjects :: "store \<Rightarrow> (account \<Rightarrow> account) \<Rightarrow> addr list \<Rightarrow> (store \<times> addr list) option" where
  "mapObjects st f [] = Some (st, [])"
| "mapObjects st f (a # rest) =
     (case objectAt st a of
        None \<Rightarrow> None
      | Some acc \<Rightarrow>
          (case allocate st (Object (f acc)) of
             (st1, r) \<Rightarrow>
               (case mapObjects st1 f rest of
                  None \<Rightarrow> None
                | Some (st2, rs) \<Rightarrow> Some (st2, r # rs))))"

definition mapStore :: "store \<Rightarrow> (account \<Rightarrow> account) \<Rightarrow> addr \<Rightarrow> (store \<times> addr) option" where
  "mapStore st f accs =
     (case arrayAt st accs of
        None \<Rightarrow> None
      | Some elems \<Rightarrow>
          (case mapObjects st f elems of
             None \<Rightarrow> None
           | Some (st1, rs) \<Rightarrow> Some (allocate st1 (Array rs))))"

text \<open>
  \<^verbatim>\<open>executeTransaction\<close> over the store: the new store, and the status code with the
  address of the returned account list.
\<close>

definition executeTransactionStore ::
  "host \<Rightarrow> parsed_data \<Rightarrow> store \<Rightarrow> addr \<Rightarrow> (store \<times> code \<times> addr) option" where
  "executeTransactionStore h parsedData st accs =
     (let rawAmount = amount parsedData;
          executeBy = execute_by parsedData;
          debitAccount = debit_account parsedData;
          creditAccount = credit_account parsedData;
          parsedAmount = parseInt rawAmount
      in if shouldExecuteNow h executeBy
         then (case mapStore st (updateAccount debitAccount creditAccount parsedAmount) accs of
                 None \<Rightarrow> None
               | Some (st1, updatedAccounts) \<Rightarrow>
                   (case createAccountsResponseStore st1 updatedAccounts
                           debitAccount creditAccount True of
                      None \<Rightarrow> None
                    | Some (st2, views) \<Rightarrow> Some (st2, AP00, views)))
         else (case createAccountsResponseStore st accs debitAccount creditAccount False of
                 None \<Rightarrow> None
               | Some (st2, views) \<Rightarrow> Some (st2, AP02, views)))"

text \<open>
  \<open>extends st st'\<close>: every cell of \<open>st\<close> is in \<open>st'\<close>, unchanged, at its address (nothing
  that existed was written to or freed).
\<close>

definition extends :: "store \<Rightarrow> store \<Rightarrow> bool" where
  "extends st st' = (length st \<le> length st' \<and> take (length st) st' = st)"

section \<open>Notions used to state the properties\<close>


text \<open>The six anchors of a recogniser as a list, in the declared order.\<close>

fun anchorList :: "int \<times> int \<times> int \<times> int \<times> int \<times> int \<Rightarrow> int list" where
  "anchorList (i1, i2, i3, i4, i5, i6) = [i1, i2, i3, i4, i5, i6]"




section \<open>Normalisation is idempotent\<close>

lemma isWhiteSpace_toUpperChar [simp]: "isWhiteSpace (toUpperChar c) = isWhiteSpace c"
  by (auto simp: isWhiteSpace_def toUpperChar_def Let_def)

lemma toUpperChar_idem [simp]: "toUpperChar (toUpperChar c) = toUpperChar c"
  by (auto simp: toUpperChar_def Let_def)

lemma toUpperChar_space [simp]: "toUpperChar (CHR '' '') = CHR '' ''"
  by (simp add: toUpperChar_def)

lemma isWhiteSpace_space [simp]: "isWhiteSpace (CHR '' '')"
  by (simp add: isWhiteSpace_def)













section \<open>Reading numbers\<close>

text \<open>What \<^verbatim>\<open>parseInt\<close> reads from a string of digits, and when it gives \<open>NaN\<close>.\<close>

lemma digitsValue_snoc: "digitsValue (ds @ [c]) = 10 * digitsValue ds + digitValue c"
  by (simp add: digitsValue_def)

lemma digitValue_nonneg: "isDigit c \<Longrightarrow> 0 \<le> digitValue c \<and> digitValue c \<le> 9"
  by (auto simp: isDigit_def digitValue_def Let_def)

lemma digitsValue_nonneg: "list_all isDigit ds \<Longrightarrow> 0 \<le> digitsValue ds"
proof (induction ds rule: rev_induct)
  case Nil
  then show ?case by (simp add: digitsValue_def)
next
  case (snoc c ds)
  then show ?case
    using digitValue_nonneg [of c] by (simp add: digitsValue_snoc)
qed

lemma isDigit_not_space: "isDigit c \<Longrightarrow> \<not> isWhiteSpace c \<and> c \<noteq> CHR ''-'' \<and> c \<noteq> CHR ''+''"
  by (auto simp: isDigit_def isWhiteSpace_def Let_def)

lemma parseInt_digits:
  assumes "ds \<noteq> []" and "list_all isDigit ds"
  shows "parseInt ds = Num (digitsValue ds)"
proof -
  from assms obtain c cs where ds: "ds = c # cs" and c: "isDigit c"
    by (cases ds) auto
  have t: "takeWhile isDigit ds = ds"
    using assms(2) by (simp add: list_all_iff)
  have "parseInt ds = Num (digitsValue (takeWhile isDigit ds))"
    using isDigit_not_space [OF c] c by (simp add: parseInt_def ds Let_def)
  then show ?thesis
    by (simp only: t)
qed

lemma parseInt_NaN_iff:
  "isNaN (parseInt s) \<longleftrightarrow>
   (let t = dropWhile isWhiteSpace s;
        r = (if t \<noteq> [] \<and> (hd t = CHR ''-'' \<or> hd t = CHR ''+'') then tl t else t)
    in r = [] \<or> \<not> isDigit (hd r))"
  by (auto simp: parseInt_def Let_def takeWhile_eq_Nil_iff)

section \<open>Dates and the host\<close>

text \<open>\<^verbatim>\<open>isValidDate\<close> does not depend on the host: it builds and reads the Date in local time.\<close>

lemma local_date_fields:
  "getFullYear h (newDateLocal h y m d) = getUTCFullYear (newDateLocal h y m d + localTZA h)"
  "getMonth h (newDateLocal h y m d) = getUTCMonth (newDateLocal h y m d + localTZA h)"
  "getDate h (newDateLocal h y m d) = getUTCDate (newDateLocal h y m d + localTZA h)"
  by (simp_all add: getFullYear_def getMonth_def getDate_def)

lemma local_date_time:
  "newDateLocal h y m d + localTZA h = newDateLocal h' y m d + localTZA h'"
  by (simp add: newDateLocal_def Let_def)

lemma isValidDate_host: "isValidDate h s = isValidDate h' s"
  unfolding isValidDate_def Let_def local_date_fields local_date_time [of h _ _ _ h'] ..

text \<open>\<open>civilFromDays\<close> and \<open>daysFromCivil\<close> are inverse to each other on day numbers.\<close>

lemma quotient_step:
  fixes a b k :: int
  assumes "a \<le> b" and "0 < k"
  shows "b div k - a div k \<le> b - a"
proof (rule ccontr)
  assume "\<not> b div k - a div k \<le> b - a"
  then have "b - a + 1 \<le> b div k - a div k"
    by simp
  then have "k * (b - a + 1) \<le> k * (b div k - a div k)"
    using assms(2) by (simp add: mult_le_cancel_left_pos)
  then have 1: "k * (b - a) + k \<le> k * (b div k) - k * (a div k)"
    by (simp add: algebra_simps)
  have e: "k * (a div k) + a mod k = a" "k * (b div k) + b mod k = b"
    by simp_all
  have m: "0 \<le> a mod k" "a mod k < k" "0 \<le> b mod k" "b mod k < k"
    using assms(2) by simp_all
  from e m have 2: "k * (b div k) - k * (a div k) < b - a + k"
    by linarith
  have "b - a \<le> k * (b - a)"
    using assms by (simp add: mult_le_cancel_right1)
  with 1 2 show False
    by linarith
qed

lemma yearOfEra_mono:
  assumes "0 \<le> a" and "a \<le> b" and "b \<le> 146095"
  shows "yearOfEra a \<le> yearOfEra b"
proof -
  have c: "a div 146096 = 0" "b div 146096 = 0"
    using assms by simp_all
  have "b div 1460 - a div 1460 \<le> b - a"
    using assms(2) by (rule quotient_step) simp
  moreover have "a div 36524 \<le> b div 36524"
    using assms(2) by (rule zdiv_mono1) simp
  ultimately have "a - a div 1460 + a div 36524 - a div 146096
                   \<le> b - b div 1460 + b div 36524 - b div 146096"
    by (simp add: c)
  then show ?thesis
    unfolding yearOfEra_def by (rule zdiv_mono1) simp
qed

lemma year_table:
  "list_all (\<lambda>y. yearOfEra (daysBeforeYear y) = y
                 \<and> yearOfEra (daysBeforeYear (y + 1) - 1) = y) [0..399]"
  by code_simp

lemma year_table_at:
  assumes "0 \<le> y" and "y < 400"
  shows "yearOfEra (daysBeforeYear y) = y" and "yearOfEra (daysBeforeYear (y + 1) - 1) = y"
proof -
  have "y \<in> set [0..399]"
    using assms by simp
  with year_table have "yearOfEra (daysBeforeYear y) = y
      \<and> yearOfEra (daysBeforeYear (y + 1) - 1) = y"
    unfolding list_all_iff by blast
  then show "yearOfEra (daysBeforeYear y) = y" "yearOfEra (daysBeforeYear (y + 1) - 1) = y"
    by simp_all
qed

lemma daysBeforeYear_bounds:
  assumes "0 \<le> y" and "y \<le> 399"
  shows "0 \<le> daysBeforeYear y" and "daysBeforeYear y \<le> 145734"
    and "daysBeforeYear (y + 1) - daysBeforeYear y \<le> 366"
proof -
  have q: "0 \<le> y div 4" "y div 4 \<le> 99" "0 \<le> y div 100"
    using assms by (simp_all add: pos_imp_zdiv_nonneg_iff)
  have "y div 100 \<le> y div 4"
    using assms(1) by (simp add: zdiv_mono2)
  then show "0 \<le> daysBeforeYear y"
    using assms(1) by (simp add: daysBeforeYear_def)
  show "daysBeforeYear y \<le> 145734"
    using assms q by (simp add: daysBeforeYear_def)
  have "(y + 1) div 4 - y div 4 \<le> (y + 1) - y"
    by (rule quotient_step) simp_all
  moreover have "y div 100 \<le> (y + 1) div 100"
    by (rule zdiv_mono1) simp_all
  ultimately show "daysBeforeYear (y + 1) - daysBeforeYear y \<le> 366"
    by (simp add: daysBeforeYear_def)
qed

lemma yearOfEra_correct:
  assumes "0 \<le> doe" and "doe \<le> 146096"
  shows "0 \<le> yearOfEra doe \<and> yearOfEra doe \<le> 399
         \<and> daysBeforeYear (yearOfEra doe) \<le> doe
         \<and> doe - daysBeforeYear (yearOfEra doe) \<le> 365"
proof (cases "doe = 146096")
  case True
  then show ?thesis
    by (simp add: yearOfEra_def daysBeforeYear_def)
next
  case False
  with assms have le: "doe \<le> 146095" by simp
  define y where "y = yearOfEra doe"
  have "yearOfEra 0 \<le> yearOfEra doe"
    using assms(1) le by (intro yearOfEra_mono) simp_all
  then have y0: "0 \<le> y"
    by (simp add: y_def yearOfEra_def)
  have "yearOfEra doe \<le> yearOfEra 146095"
    using assms(1) le by (intro yearOfEra_mono) simp_all
  then have y399: "y \<le> 399"
    by (simp add: y_def yearOfEra_def)
  note b = daysBeforeYear_bounds [OF y0 y399]
  have lower: "daysBeforeYear y \<le> doe"
  proof (rule ccontr)
    assume "\<not> daysBeforeYear y \<le> doe"
    then have lt: "doe \<le> daysBeforeYear y - 1" by simp
    have "y \<noteq> 0"
      using lt assms(1) by (auto simp: daysBeforeYear_def)
    with y0 have y1: "0 \<le> y - 1" "y - 1 < 400"
      using y399 by simp_all
    have "yearOfEra doe \<le> yearOfEra (daysBeforeYear y - 1)"
      using assms(1) lt b(2) by (intro yearOfEra_mono) simp_all
    also have "\<dots> = y - 1"
      using year_table_at(2) [OF y1] by simp
    finally show False
      by (simp add: y_def)
  qed
  have upper: "doe < daysBeforeYear (y + 1)"
  proof (cases "y = 399")
    case True
    then show ?thesis
      using le by (simp add: daysBeforeYear_def)
  next
    case False
    with y399 have y2: "0 \<le> y + 1" "y + 1 < 400" "y + 1 \<le> 399"
      using y0 by simp_all
    show ?thesis
    proof (rule ccontr)
      assume "\<not> doe < daysBeforeYear (y + 1)"
      then have ge: "daysBeforeYear (y + 1) \<le> doe" by simp
      have "yearOfEra (daysBeforeYear (y + 1)) \<le> yearOfEra doe"
        using ge le daysBeforeYear_bounds(1) [OF y2(1,3)] by (intro yearOfEra_mono) simp_all
      then have "y + 1 \<le> yearOfEra doe"
        using year_table_at(1) [OF y2(1,2)] by simp
      then show False
        by (simp add: y_def)
    qed
  qed
  from y0 y399 lower upper b(3) show ?thesis
    unfolding y_def [symmetric] by simp
qed


lemma civilFromDays_fields:
  obtains y m d where "civilFromDays z = (y, m, d)" and "1 \<le> m" and "m \<le> 12"
    and "daysFromCivil y m d = z" and "0 \<le> z \<longrightarrow> 1600 \<le> y"
proof -
  define z1 where "z1 = z + 719468"
  define era where "era = z1 div 146097"
  define doe where "doe = z1 - era * 146097"
  define yoe where "yoe = yearOfEra doe"
  define doy where "doy = doe - (365 * yoe + yoe div 4 - yoe div 100)"
  define mp where "mp = (5 * doy + 2) div 153"
  define d where "d = doy - (153 * mp + 2) div 5 + 1"
  define m where "m = (if mp < 10 then mp + 3 else mp - 9)"
  define y where "y = yoe + era * 400"
  have "doe = z1 mod 146097"
    by (simp add: doe_def era_def minus_div_mult_eq_mod)
  then have doe: "0 \<le> doe" "doe \<le> 146096"
    by simp_all
  from yearOfEra_correct [OF doe] have yoe: "0 \<le> yoe" "yoe \<le> 399"
    and doy: "0 \<le> doy" "doy \<le> 365"
    by (simp_all add: yoe_def doy_def daysBeforeYear_def)
  have "0 \<le> (5 * doy + 2) div 153"
    using doy(1) by (simp add: pos_imp_zdiv_nonneg_iff)
  moreover have "(5 * doy + 2) div 153 \<le> 1827 div 153"
    using doy(2) by (intro zdiv_mono1) simp_all
  ultimately have mp: "0 \<le> mp" "mp \<le> 11"
    by (simp_all add: mp_def)
  have m: "1 \<le> m" "m \<le> 12"
    using mp by (simp_all add: m_def)
  have mp': "(if m > 2 then m - 3 else m + 9) = mp"
    using mp by (simp add: m_def)
  have c: "civilFromDays z = (if m \<le> 2 then y + 1 else y, m, d)"
    unfolding civilFromDays_def Let_def m_def d_def mp_def doy_def y_def yoe_def yearOfEra_def
      doe_def era_def z1_def
    by (rule refl)
  have e: "y div 400 = era"
    using yoe by (simp add: y_def)
  have rt: "daysFromCivil (if m \<le> 2 then y + 1 else y) m d = z"
  proof -
    have y1: "(if m \<le> 2 then (if m \<le> 2 then y + 1 else y) - 1 else (if m \<le> 2 then y + 1 else y)) = y"
      by simp
    have "daysFromCivil (if m \<le> 2 then y + 1 else y) m d =
          era * 146097 + ((y - era * 400) * 365 + (y - era * 400) div 4 - (y - era * 400) div 100
            + ((153 * mp + 2) div 5 + d - 1)) - 719468"
      unfolding daysFromCivil_def Let_def y1 mp' e ..
    also have "\<dots> = era * 146097 + doe - 719468"
      by (simp add: y_def d_def doy_def)
    also have "\<dots> = z"
      by (simp add: doe_def z1_def)
    finally show ?thesis .
  qed
  have late: "1600 \<le> (if m \<le> 2 then y + 1 else y)" if "0 \<le> z"
  proof -
    have "719468 div 146097 \<le> z1 div 146097"
      using that by (intro zdiv_mono1) (simp_all add: z1_def)
    then have "4 \<le> era"
      by (simp add: era_def)
    then show ?thesis
      using yoe(1) by (simp add: y_def)
  qed
  from that [OF c m rt] late show thesis
    by blast
qed

lemma makeDay_civilFromDays:
  assumes "civilFromDays z = (y, m, d)"
  shows "makeDay y (m - 1) d = z"
proof -
  obtain y' m' d' where f: "civilFromDays z = (y', m', d')" "1 \<le> m'" "m' \<le> 12"
    "daysFromCivil y' m' d' = z"
    by (rule civilFromDays_fields)
  with assms have eq: "y' = y" "m' = m" "d' = d"
    by simp_all
  have "(m - 1) div 12 = 0" "(m - 1) mod 12 = m - 1"
    using f(2,3) eq by simp_all
  then have "makeDay y (m - 1) d = daysFromCivil y m 1 + d - 1"
    by (simp add: makeDay_def)
  also have "\<dots> = daysFromCivil y m d"
    by (simp add: daysFromCivil_def Let_def)
  finally show ?thesis
    using f(4) eq by simp
qed

text \<open>
  \<open>todayUTC\<close> of \<^verbatim>\<open>isDateInPastOrToday\<close>: the midnight that begins the current UTC date,
  shifted by the offset of the local time zone.
\<close>

lemma todayUTC_value:
  assumes "0 \<le> currentTime h"
  shows "newDateLocal h (getUTCFullYear (currentTime h)) (getUTCMonth (currentTime h))
           (getUTCDate (currentTime h))
         = currentTime h div msPerDay * msPerDay - localTZA h"
proof -
  let ?z = "currentTime h div msPerDay"
  have z: "0 \<le> ?z"
    using assms by (simp add: msPerDay_def pos_imp_zdiv_nonneg_iff)
  obtain y m d where f: "civilFromDays ?z = (y, m, d)" "0 \<le> ?z \<longrightarrow> 1600 \<le> y"
    by (rule civilFromDays_fields)
  with z have y: "1600 \<le> y"
    by simp
  have "newDateLocal h y (m - 1) d = makeDay y (m - 1) d * msPerDay - localTZA h"
    using y by (simp add: newDateLocal_def)
  with makeDay_civilFromDays [OF f(1)] show ?thesis
    by (simp add: getUTCFullYear_def getUTCMonth_def getUTCDate_def f(1))
qed

lemma isDateInPastOrToday_value:
  assumes "0 \<le> currentTime h"
  shows "isDateInPastOrToday h s =
         (case parseDateUTCMidnight s of
            None \<Rightarrow> False
          | Some t \<Rightarrow> t \<le> currentTime h div msPerDay * msPerDay - localTZA h)"
  by (simp add: isDateInPastOrToday_def Let_def todayUTC_value [OF assms] cong: option.case_cong)

lemma parseDateUTCMidnight_midnight:
  "parseDateUTCMidnight s = Some t \<Longrightarrow> t = t div msPerDay * msPerDay"
  by (auto simp: parseDateUTCMidnight_def Let_def msPerDay_def split: if_splits)

text \<open>
  At or west of UTC (an offset of less than a day) the comparison is between the two UTC
  dates. East of UTC a date equal to the current UTC date is not due.
\<close>

lemma isDateInPastOrToday_west:
  assumes "0 \<le> currentTime h" and "- msPerDay < localTZA h" and "localTZA h \<le> 0"
  shows "isDateInPastOrToday h s =
         (case parseDateUTCMidnight s of
            None \<Rightarrow> False
          | Some t \<Rightarrow> t div msPerDay \<le> currentTime h div msPerDay)"
proof (cases "parseDateUTCMidnight s")
  case None
  then show ?thesis
    by (simp add: isDateInPastOrToday_value [OF assms(1)])
next
  case (Some t)
  define k where "k = currentTime h div msPerDay"
  obtain n where t: "t = n * msPerDay"
    using parseDateUTCMidnight_midnight [OF Some] by blast
  have n: "t div msPerDay = n"
    by (simp add: t msPerDay_def)
  have "n * msPerDay \<le> k * msPerDay - localTZA h \<longleftrightarrow> n \<le> k"
  proof
    assume "n \<le> k"
    then have "n * msPerDay \<le> k * msPerDay"
      by (simp add: msPerDay_def)
    with assms(3) show "n * msPerDay \<le> k * msPerDay - localTZA h"
      by simp
  next
    assume "n * msPerDay \<le> k * msPerDay - localTZA h"
    with assms(2) have "n * msPerDay < (k + 1) * msPerDay"
      by (simp add: algebra_simps)
    then have "n < k + 1"
      by (simp add: msPerDay_def)
    then show "n \<le> k" by simp
  qed
  then have "t \<le> k * msPerDay - localTZA h \<longleftrightarrow> n \<le> k"
    by (simp only: t)
  then show ?thesis
    by (simp only: isDateInPastOrToday_value [OF assms(1)] Some n k_def [symmetric] option.case)
qed

lemma isDateInPastOrToday_east:
  assumes "0 \<le> currentTime h" and "0 < localTZA h"
    and "parseDateUTCMidnight s = Some t" and "t div msPerDay = currentTime h div msPerDay"
  shows "\<not> isDateInPastOrToday h s"
proof -
  have "t = currentTime h div msPerDay * msPerDay"
    using parseDateUTCMidnight_midnight [OF assms(3)] assms(4) by simp
  then show ?thesis
    using assms(2) by (simp add: isDateInPastOrToday_value [OF assms(1)] assms(3))
qed

lemma parseDateUTCMidnight_nonempty: "parseDateUTCMidnight s = Some t \<Longrightarrow> s \<noteq> []"
  by (auto simp: parseDateUTCMidnight_def split: if_splits)

text \<open>
  On a host at or west of UTC (by less than a day), whose clock is not before 1970, the
  executor settles at once exactly when there is no date or the date's UTC day is not
  after the current UTC day.
\<close>

lemma decision_rule_at_or_west_of_utc:
  assumes "0 \<le> currentTime h" and "- msPerDay < localTZA h" and "localTZA h \<le> 0"
  shows "shouldExecuteNow h e \<longleftrightarrow>
         (case e of
            None \<Rightarrow> True
          | Some s \<Rightarrow> s = [] \<or>
              (case parseDateUTCMidnight s of
                 None \<Rightarrow> False
               | Some t \<Rightarrow> t div msPerDay \<le> currentTime h div msPerDay))"
  by (simp add: shouldExecuteNow_def isDateInPastOrToday_west [OF assms] split: option.split)

section \<open>The keyword locator\<close>

lemma findKeywordIndex_result:
  "findKeywordIndex parts keyword i = - 1 \<or>
   (i \<le> findKeywordIndex parts keyword i \<and> 0 \<le> findKeywordIndex parts keyword i \<and>
    findKeywordIndex parts keyword i < int (length parts) \<and>
    parts ! nat (findKeywordIndex parts keyword i) = keyword)"
proof (induction parts keyword i rule: findKeywordIndex.induct)
  case (1 parts keyword i)
  show ?case
  proof (cases "i < int (length parts)")
    case False
    then show ?thesis by (subst findKeywordIndex.simps) simp
  next
    case True
    show ?thesis
    proof (cases "0 \<le> i \<and> parts ! nat i = keyword")
      case hit: True
      then show ?thesis using True by (subst (1 2 3 4 5) findKeywordIndex.simps) simp
    next
      case miss: False
      have eq: "findKeywordIndex parts keyword i = findKeywordIndex parts keyword (i + 1)"
        using True miss by (subst findKeywordIndex.simps) auto
      from 1 [OF True miss] show ?thesis
        unfolding eq by auto
    qed
  qed
qed



lemma findKeywordIndex_first:
  assumes "findKeywordIndex parts keyword i \<noteq> - 1" and "i \<le> int j"
    and "int j < findKeywordIndex parts keyword i"
  shows "parts ! j \<noteq> keyword"
  using assms
proof (induction parts keyword i rule: findKeywordIndex.induct)
  case (1 parts keyword i)
  show ?case
  proof (cases "i < int (length parts)")
    case False
    then have "findKeywordIndex parts keyword i = - 1" by (subst findKeywordIndex.simps) simp
    with 1(2) show ?thesis by simp
  next
    case True
    show ?thesis
    proof (cases "0 \<le> i \<and> parts ! nat i = keyword")
      case hit: True
      then have "findKeywordIndex parts keyword i = i"
        using True by (subst findKeywordIndex.simps) simp
      with 1(3,4) show ?thesis by simp
    next
      case miss: False
      have eq: "findKeywordIndex parts keyword i = findKeywordIndex parts keyword (i + 1)"
        using True miss by (subst findKeywordIndex.simps) auto
      show ?thesis
      proof (cases "i = int j")
        case True
        then show ?thesis using miss by auto
      next
        case False
        with 1(3) have "i + 1 \<le> int j" by simp
        from 1(1) [OF True miss _ this] 1(2,4) show ?thesis
          unfolding eq by simp
      qed
    qed
  qed
qed

section \<open>The two phases of a recogniser\<close>

lemma tokens_empty: "tokens [] = [[]]"
  by (simp add: tokens_def normalize_def trim_def toUpperCase_def)

lemma tokens_long_nonempty: "8 \<le> length (tokens s) \<Longrightarrow> s \<noteq> []"
  using tokens_empty by auto

lemma recogniserFailure_code [simp]:
  "error_code (recogniserFailure c) = c" "f_type (recogniserFailure c) = Undefined"
  by (simp_all add: recogniserFailure_def)

lemma recogniserFailure_inject [simp]: "recogniserFailure c = recogniserFailure c' \<longleftrightarrow> c = c'"
  by (auto simp: recogniserFailure_def)

lemma parseDebitInstruction_phases:
  "parseDebitInstruction parts s =
   (if - 1 \<in> set (anchorList (debitAnchors parts)) then Inl (recogniserFailure SY01)
    else if \<not> sorted_wrt (<) (anchorList (debitAnchors parts)) then Inl (recogniserFailure SY02)
    else Inr \<lparr>amount = parts ! 1, currency = parts ! 2,
              debit_account = extractAccountId s (nat (anchorList (debitAnchors parts) ! 1 + 1)) parts,
              credit_account = extractAccountId s (nat (anchorList (debitAnchors parts) ! 5 + 1)) parts,
              execute_by = executeByOf parts (onIndexOf parts (debitAnchors parts))\<rparr>)"
  by (cases "debitAnchors parts")
    (auto simp: parseDebitInstruction_def onIndexOf_def Let_def)

lemma parseCreditInstruction_phases:
  "parseCreditInstruction parts s =
   (if - 1 \<in> set (anchorList (creditAnchors parts)) then Inl (recogniserFailure SY01)
    else if \<not> sorted_wrt (<) (anchorList (creditAnchors parts)) then Inl (recogniserFailure SY02)
    else Inr \<lparr>amount = parts ! 1, currency = parts ! 2,
              debit_account = extractAccountId s (nat (anchorList (creditAnchors parts) ! 5 + 1)) parts,
              credit_account = extractAccountId s (nat (anchorList (creditAnchors parts) ! 1 + 1)) parts,
              execute_by = executeByOf parts (onIndexOf parts (creditAnchors parts))\<rparr>)"
  by (cases "creditAnchors parts")
    (auto simp: parseCreditInstruction_def onIndexOf_def Let_def)

lemma parseInstruction_debit:
  assumes "8 \<le> length (tokens s)" and "tokens s ! 0 = ''DEBIT''"
  shows "parseInstruction (JString s) =
         (case parseDebitInstruction (tokens s) s of
            Inl f \<Rightarrow> Inl f
          | Inr d \<Rightarrow> Inr (withType ''DEBIT'' d))"
  using assms tokens_long_nonempty [OF assms(1)]
  by (simp add: parseInstruction_def tokens_def normalize_def Let_def)

lemma parseInstruction_credit:
  assumes "8 \<le> length (tokens s)" and "tokens s ! 0 = ''CREDIT''"
  shows "parseInstruction (JString s) =
         (case parseCreditInstruction (tokens s) s of
            Inl f \<Rightarrow> Inl f
          | Inr d \<Rightarrow> Inr (withType ''CREDIT'' d))"
  using assms tokens_long_nonempty [OF assms(1)]
  by (simp add: parseInstruction_def tokens_def normalize_def Let_def)



lemma parseInstruction_phases:
  assumes "8 \<le> length (tokens s)"
    and "(tokens s ! 0 = ''DEBIT'' \<and> anchors = debitAnchors (tokens s))
         \<or> (tokens s ! 0 = ''CREDIT'' \<and> anchors = creditAnchors (tokens s))"
  shows "parseInstruction (JString s) =
   (if - 1 \<in> set (anchorList anchors) then Inl (recogniserFailure SY01)
    else if \<not> sorted_wrt (<) (anchorList anchors) then Inl (recogniserFailure SY02)
    else Inr \<lparr>amount = tokens s ! 1, currency = tokens s ! 2,
              debit_account = extractAccountId s
                (nat (anchorList anchors ! (if tokens s ! 0 = ''DEBIT'' then 1 else 5) + 1)) (tokens s),
              credit_account = extractAccountId s
                (nat (anchorList anchors ! (if tokens s ! 0 = ''DEBIT'' then 5 else 1) + 1)) (tokens s),
              execute_by = executeByOf (tokens s) (onIndexOf (tokens s) anchors),
              instruction_type = tokens s ! 0\<rparr>)"
  using assms(2)
proof
  assume a: "tokens s ! 0 = ''DEBIT'' \<and> anchors = debitAnchors (tokens s)"
  then show ?thesis
    by (simp add: parseInstruction_debit [OF assms(1)] parseDebitInstruction_phases withType_def)
next
  assume a: "tokens s ! 0 = ''CREDIT'' \<and> anchors = creditAnchors (tokens s)"
  then show ?thesis
    by (simp add: parseInstruction_credit [OF assms(1)] parseCreditInstruction_phases withType_def)
qed

section \<open>The response builder\<close>

lemma accountsResponseLoop_map_filter:
  "accountsResponseLoop accs d c incl =
   map (accountResponse incl) (filter (\<lambda>a. acc_id a = d \<or> acc_id a = c) accs)"
  by (induction accs) auto

lemma accountResponse_False:
  "accountResponse False a =
   \<lparr>acc_id = acc_id a, balance = balance a, acc_currency = toUpperCase (acc_currency a),
    balance_before = Some (balance a)\<rparr>"
  by (simp add: accountResponse_def)


lemma acc_id_updateAccount [simp]: "acc_id (updateAccount d c n a) = acc_id a"
  by (simp add: updateAccount_def)

lemma filter_map_updateAccount:
  "filter (\<lambda>a. acc_id a = d \<or> acc_id a = c) (map (updateAccount d c n) accs) =
   map (updateAccount d c n) (filter (\<lambda>a. acc_id a = d \<or> acc_id a = c) accs)"
  by (induction accs) auto


section \<open>The paths of the executor and of the service\<close>

lemma executeTransaction_array:
  "executeTransaction h pd (AccountsArray accs) =
   Inr (if shouldExecuteNow h (execute_by pd)
        then \<lparr>s_status = ''successful'', s_status_reason = STATUS_CODES AP00,
              s_status_code = AP00,
              s_accounts = accountsResponseLoop
                (map (updateAccount (debit_account pd) (credit_account pd) (parseInt (amount pd))) accs)
                (debit_account pd) (credit_account pd) True\<rparr>
        else \<lparr>s_status = ''pending'', s_status_reason = STATUS_CODES AP02,
              s_status_code = AP02,
              s_accounts = accountsResponseLoop accs (debit_account pd) (credit_account pd) False\<rparr>)"
  by (simp add: executeTransaction_def Let_def array_map_def createAccountsResponse_def)

lemma validateBusinessRules_array:
  "\<exists>v. validateBusinessRules h pd (AccountsArray accs) = Inr v"
  by (auto simp: validateBusinessRules_def Let_def array_find_def split: option.splits)

lemma validateBusinessRules_not_array:
  "\<forall>accs. as \<noteq> AccountsArray accs \<Longrightarrow> validateBusinessRules h pd as \<noteq> Inr None"
  by (cases as) (auto simp: validateBusinessRules_def Let_def array_find_def split: if_splits)

lemma createErrorResponse_sel [simp]:
  "r_type (createErrorResponse t a c d e x st sr sc accs) = t"
  "r_debit_account (createErrorResponse t a c d e x st sr sc accs) = d"
  "r_credit_account (createErrorResponse t a c d e x st sr sc accs) = e"
  "r_execute_by (createErrorResponse t a c d e x st sr sc accs) = x"
  "status (createErrorResponse t a c d e x st sr sc accs) = st"
  "status_reason (createErrorResponse t a c d e x st sr sc accs) = sr"
  "status_code (createErrorResponse t a c d e x st sr sc accs) = sc"
  "accounts (createErrorResponse t a c d e x st sr sc accs) = accs"
  by (simp_all add: createErrorResponse_def)

lemma createSuccessResponse_sel [simp]:
  "r_type (createSuccessResponse pd st sr sc accs) = Val (instruction_type pd)"
  "r_amount (createSuccessResponse pd st sr sc accs) = Val (parseInt (amount pd))"
  "r_currency (createSuccessResponse pd st sr sc accs) = Val (toUpperCase (currency pd))"
  "r_debit_account (createSuccessResponse pd st sr sc accs) = Val (debit_account pd)"
  "r_credit_account (createSuccessResponse pd st sr sc accs) = Val (credit_account pd)"
  "r_execute_by (createSuccessResponse pd st sr sc accs) = nullable (execute_by pd)"
  "status (createSuccessResponse pd st sr sc accs) = st"
  "status_reason (createSuccessResponse pd st sr sc accs) = sr"
  "status_code (createSuccessResponse pd st sr sc accs) = sc"
  "accounts (createSuccessResponse pd st sr sc accs) = accs"
  by (simp_all add: createSuccessResponse_def)

lemma malformedResponse_sel [simp]:
  "r_type malformedResponse = Null" "r_amount malformedResponse = Null"
  "r_currency malformedResponse = Null" "r_debit_account malformedResponse = Null"
  "r_credit_account malformedResponse = Null" "r_execute_by malformedResponse = Null"
  "status malformedResponse = ''failed''" "status_code malformedResponse = SY03"
  "accounts malformedResponse = []"
  by (simp_all add: malformedResponse_def createErrorResponse_def)

lemma parseInstruction_Inr_string:
  "parseInstruction instr = Inr pd \<Longrightarrow> \<exists>s. instr = JString s \<and> s \<noteq> []"
  by (cases instr) (auto simp: parseInstruction_def split: if_splits)

lemma service_malformed:
  "payload = None \<or>
   (\<exists>p. payload = Some p \<and> (\<not> truthyAccounts (payload_accounts p) \<or> \<not> truthy (instruction p)))
   \<Longrightarrow> paymentInstructionService h payload = malformedResponse"
  by (auto simp: paymentInstructionService_def serviceBody_def)

lemma service_parse_failure:
  assumes "truthyAccounts (payload_accounts p)" and "truthy (instruction p)"
    and "parseInstruction (instruction p) = Inl f"
  shows "paymentInstructionService h (Some p) =
         createErrorResponse (f_type f) (f_amount f) (f_currency f) (f_debit_account f)
           (f_credit_account f) (f_execute_by f) ''failed'' (error_message f) (error_code f) []"
  using assms by (simp add: paymentInstructionService_def serviceBody_def)

lemma service_not_array:
  assumes "payload_accounts p = AccountsNotArray"
    and "parseInstruction (instruction p) = Inr pd"
  shows "paymentInstructionService h (Some p) = malformedResponse"
proof -
  have t: "truthy (instruction p)"
    using parseInstruction_Inr_string [OF assms(2)] by auto
  have n: "validateBusinessRules h pd AccountsNotArray \<noteq> Inr None"
    by (rule validateBusinessRules_not_array) simp
  show ?thesis
  proof (cases "validateBusinessRules h pd AccountsNotArray")
    case (Inl e)
    then show ?thesis
      using assms t by (simp add: paymentInstructionService_def serviceBody_def)
  next
    case (Inr v)
    with n obtain w where "v = Some w" by (cases v) auto
    then show ?thesis
      using assms t Inr
      by (simp add: paymentInstructionService_def serviceBody_def createAccountsResponse_def)
  qed
qed

lemma service_rule_failure:
  assumes "payload_accounts p = AccountsArray accs"
    and "parseInstruction (instruction p) = Inr pd"
    and "validateBusinessRules h pd (AccountsArray accs) = Inr (Some v)"
  shows "paymentInstructionService h (Some p) =
         createErrorResponse (Val (instruction_type pd)) (Val (amount pd)) (Val (currency pd))
           (Val (debit_account pd)) (Val (credit_account pd)) (nullable (execute_by pd))
           ''failed'' (error_message v) (error_code v)
           (accountsResponseLoop accs (debit_account pd) (credit_account pd) False)"
proof -
  have t: "truthy (instruction p)"
    using parseInstruction_Inr_string [OF assms(2)] by auto
  show ?thesis
    using assms t
    by (simp add: paymentInstructionService_def serviceBody_def createAccountsResponse_def)
qed

lemma service_settlement:
  assumes "payload_accounts p = AccountsArray accs"
    and "parseInstruction (instruction p) = Inr pd"
    and "validateBusinessRules h pd (AccountsArray accs) = Inr None"
  shows "paymentInstructionService h (Some p) =
         (if shouldExecuteNow h (execute_by pd)
          then createSuccessResponse pd ''successful'' (STATUS_CODES AP00) AP00
                 (accountsResponseLoop
                    (map (updateAccount (debit_account pd) (credit_account pd) (parseInt (amount pd))) accs)
                    (debit_account pd) (credit_account pd) True)
          else createSuccessResponse pd ''pending'' (STATUS_CODES AP02) AP02
                 (accountsResponseLoop accs (debit_account pd) (credit_account pd) False))"
proof -
  have t: "truthy (instruction p)"
    using parseInstruction_Inr_string [OF assms(2)] by auto
  show ?thesis
    using assms t
    by (simp add: paymentInstructionService_def serviceBody_def executeTransaction_array)
qed

text \<open>Every call of the service takes one of five paths.\<close>

lemma service_cases [case_names malformed parse_failure rule_failure immediate deferred]:
  obtains
    "paymentInstructionService h payload = malformedResponse"
  | p f where "payload = Some p" "truthyAccounts (payload_accounts p)"
      "parseInstruction (instruction p) = Inl f"
      "paymentInstructionService h payload =
         createErrorResponse (f_type f) (f_amount f) (f_currency f) (f_debit_account f)
           (f_credit_account f) (f_execute_by f) ''failed'' (error_message f) (error_code f) []"
  | p accs pd v where "payload = Some p" "payload_accounts p = AccountsArray accs"
      "parseInstruction (instruction p) = Inr pd"
      "validateBusinessRules h pd (AccountsArray accs) = Inr (Some v)"
      "paymentInstructionService h payload =
         createErrorResponse (Val (instruction_type pd)) (Val (amount pd)) (Val (currency pd))
           (Val (debit_account pd)) (Val (credit_account pd)) (nullable (execute_by pd))
           ''failed'' (error_message v) (error_code v)
           (accountsResponseLoop accs (debit_account pd) (credit_account pd) False)"
  | p accs pd where "payload = Some p" "payload_accounts p = AccountsArray accs"
      "parseInstruction (instruction p) = Inr pd"
      "validateBusinessRules h pd (AccountsArray accs) = Inr None"
      "shouldExecuteNow h (execute_by pd)"
      "paymentInstructionService h payload =
         createSuccessResponse pd ''successful'' (STATUS_CODES AP00) AP00
           (accountsResponseLoop
              (map (updateAccount (debit_account pd) (credit_account pd) (parseInt (amount pd))) accs)
              (debit_account pd) (credit_account pd) True)"
  | p accs pd where "payload = Some p" "payload_accounts p = AccountsArray accs"
      "parseInstruction (instruction p) = Inr pd"
      "validateBusinessRules h pd (AccountsArray accs) = Inr None"
      "\<not> shouldExecuteNow h (execute_by pd)"
      "paymentInstructionService h payload =
         createSuccessResponse pd ''pending'' (STATUS_CODES AP02) AP02
           (accountsResponseLoop accs (debit_account pd) (credit_account pd) False)"
proof (cases payload)
  case None
  then show ?thesis using that(1) service_malformed by blast
next
  case (Some p)
  show ?thesis
  proof (cases "truthyAccounts (payload_accounts p) \<and> truthy (instruction p)")
    case False
    then show ?thesis using that(1) service_malformed Some by blast
  next
    case True
    show ?thesis
    proof (cases "parseInstruction (instruction p)")
      case (Inl f)
      from service_parse_failure [OF _ _ Inl] True that(2) [OF Some _ Inl] show ?thesis
        by (simp add: Some)
    next
      case (Inr pd)
      show ?thesis
      proof (cases "payload_accounts p")
        case AccountsMissing
        then show ?thesis using True by simp
      next
        case AccountsNotArray
        from service_not_array [OF this Inr] that(1) show ?thesis
          by (simp add: Some)
      next
        case (AccountsArray accs)
        obtain v where v: "validateBusinessRules h pd (AccountsArray accs) = Inr v"
          using validateBusinessRules_array by blast
        show ?thesis
        proof (cases v)
          case None
          with v have v0: "validateBusinessRules h pd (AccountsArray accs) = Inr None" by simp
          show ?thesis
          proof (cases "shouldExecuteNow h (execute_by pd)")
            case now: True
            from service_settlement [OF AccountsArray Inr v0] now
              that(4) [OF Some AccountsArray Inr v0 now]
            show ?thesis by (simp add: Some)
          next
            case later: False
            from service_settlement [OF AccountsArray Inr v0] later
              that(5) [OF Some AccountsArray Inr v0 later]
            show ?thesis by (simp add: Some)
          qed
        next
          case (Some w)
          with v have v1: "validateBusinessRules h pd (AccountsArray accs) = Inr (Some w)" by simp
          from service_rule_failure [OF AccountsArray Inr v1]
            that(3) [OF \<open>payload = Some p\<close> AccountsArray Inr v1]
          show ?thesis by (simp add: \<open>payload = Some p\<close>)
        qed
      qed
    qed
  qed
qed

text \<open>
  An absent payload, absent accounts, an instruction that is absent, not a string or
  shorter than 8 tokens: all give the SY03 response with every field null and no accounts.
\<close>

lemma parseInstruction_malformed:
  assumes "(\<forall>s. instr \<noteq> JString s) \<or> (\<exists>s. instr = JString s \<and> length (tokens s) < 8)"
  shows "parseInstruction instr = Inl (instructionFailure SY03)"
proof (cases instr)
  case (JString s)
  with assms have "length (tokens s) < 8" by auto
  then show ?thesis
    by (simp add: JString parseInstruction_def tokens_def normalize_def Let_def)
qed (simp_all add: parseInstruction_def)

lemma malformed_instruction_SY03:
  assumes "payload = None \<or>
    (\<exists>p. payload = Some p \<and>
       (\<not> truthyAccounts (payload_accounts p) \<or> \<not> truthy (instruction p)
        \<or> (\<forall>s. instruction p \<noteq> JString s)
        \<or> (\<exists>s. instruction p = JString s \<and> length (tokens s) < 8)))"
  shows "paymentInstructionService h payload = malformedResponse"
proof (cases "payload = None \<or>
    (\<exists>p. payload = Some p \<and> (\<not> truthyAccounts (payload_accounts p) \<or> \<not> truthy (instruction p)))")
  case True
  then show ?thesis by (rule service_malformed)
next
  case False
  with assms obtain p where p: "payload = Some p" "truthyAccounts (payload_accounts p)"
    "truthy (instruction p)"
    "(\<forall>s. instruction p \<noteq> JString s) \<or> (\<exists>s. instruction p = JString s \<and> length (tokens s) < 8)"
    by auto
  from parseInstruction_malformed [OF p(4)] service_parse_failure [OF p(2,3)] show ?thesis
    by (simp add: p(1) instructionFailure_def malformedResponse_def)
qed

lemma malformedResponse_value:
  "malformedResponse =
   \<lparr>r_type = Null, r_amount = Null, r_currency = Null, r_debit_account = Null,
    r_credit_account = Null, r_execute_by = Null, status = ''failed'',
    status_reason = ''Malformed instruction: unable to parse keywords'', status_code = SY03,
    accounts = []\<rparr>"
  by (simp add: malformedResponse_def createErrorResponse_def)

section \<open>Fields of the response that are undefined\<close>

lemma instructionFailure_sel [simp]:
  "error_code (instructionFailure c) = c" "f_type (instructionFailure c) = Null"
  "f_amount (instructionFailure c) = Null" "f_currency (instructionFailure c) = Null"
  "f_debit_account (instructionFailure c) = Null" "f_credit_account (instructionFailure c) = Null"
  "f_execute_by (instructionFailure c) = Null"
  by (simp_all add: instructionFailure_def)

lemma recogniserFailure_sel [simp]:
  "f_amount (recogniserFailure c) = Undefined" "f_currency (recogniserFailure c) = Undefined"
  "f_debit_account (recogniserFailure c) = Undefined"
  "f_credit_account (recogniserFailure c) = Undefined"
  "f_execute_by (recogniserFailure c) = Undefined"
  by (simp_all add: recogniserFailure_def)

lemma parseInstruction_failure_forms:
  assumes "parseInstruction instr = Inl f"
  shows "(\<exists>c. f = instructionFailure c) \<or> f = recogniserFailure SY01 \<or> f = recogniserFailure SY02"
proof (cases instr)
  case (JString s)
  show ?thesis
  proof (cases "s = [] \<or> length (tokens s) < 8
      \<or> (tokens s ! 0 \<noteq> ''DEBIT'' \<and> tokens s ! 0 \<noteq> ''CREDIT'')")
    case True
    with assms JString show ?thesis
      by (auto simp: parseInstruction_def tokens_def normalize_def Let_def split: if_splits)
  next
    case False
    then have l: "8 \<le> length (tokens s)"
      and form: "(tokens s ! 0 = ''DEBIT'' \<and> debitAnchors (tokens s) = debitAnchors (tokens s))
         \<or> (tokens s ! 0 = ''CREDIT'' \<and> debitAnchors (tokens s) = creditAnchors (tokens s))
         \<or> (tokens s ! 0 = ''CREDIT'')"
      by auto
    from False have "tokens s ! 0 = ''DEBIT'' \<or> tokens s ! 0 = ''CREDIT''"
      by auto
    then show ?thesis
    proof
      assume d: "tokens s ! 0 = ''DEBIT''"
      from parseInstruction_phases [OF l, of "debitAnchors (tokens s)"] d assms JString
      show ?thesis
        by (auto split: if_splits)
    next
      assume c: "tokens s ! 0 = ''CREDIT''"
      from parseInstruction_phases [OF l, of "creditAnchors (tokens s)"] c assms JString
      show ?thesis
        by (auto split: if_splits)
    qed
  qed
qed (use assms in \<open>auto simp: parseInstruction_def\<close>)

text \<open>
  The response carries an \<^verbatim>\<open>undefined\<close> field exactly when a recogniser has failed; on
  every other path each of the six instruction fields is a value or an explicit null.
\<close>

lemma nullable_defined [simp]: "nullable x \<noteq> Undefined"
  by (cases x) simp_all

lemma undefined_only_on_recogniser_failure:
  "r_type (paymentInstructionService h payload) = Undefined
   \<or> r_amount (paymentInstructionService h payload) = Undefined
   \<or> r_currency (paymentInstructionService h payload) = Undefined
   \<or> r_debit_account (paymentInstructionService h payload) = Undefined
   \<or> r_credit_account (paymentInstructionService h payload) = Undefined
   \<or> r_execute_by (paymentInstructionService h payload) = Undefined
   \<longleftrightarrow> (\<exists>p c. payload = Some p \<and> truthyAccounts (payload_accounts p)
          \<and> parseInstruction (instruction p) = Inl (recogniserFailure c))"
proof (cases h payload rule: service_cases)
  case malformed
  have "\<not> (\<exists>p c. payload = Some p \<and> truthyAccounts (payload_accounts p)
          \<and> parseInstruction (instruction p) = Inl (recogniserFailure c))"
  proof
    assume "\<exists>p c. payload = Some p \<and> truthyAccounts (payload_accounts p)
          \<and> parseInstruction (instruction p) = Inl (recogniserFailure c)"
    then obtain p c where p: "payload = Some p" "truthyAccounts (payload_accounts p)"
      "parseInstruction (instruction p) = Inl (recogniserFailure c)"
      by blast
    have "truthy (instruction p)"
      using p(3) by (cases "instruction p") (auto simp: parseInstruction_def instructionFailure_def
          recogniserFailure_def split: if_splits)
    from service_parse_failure [OF p(2) this p(3), of h] malformed p(1)
    have "createErrorResponse Undefined Undefined Undefined Undefined Undefined Undefined
            ''failed'' (error_message (recogniserFailure c)) c [] = malformedResponse"
      by simp
    then have "r_type (createErrorResponse Undefined Undefined Undefined Undefined Undefined
            Undefined ''failed'' (error_message (recogniserFailure c)) c []) = r_type malformedResponse"
      by (rule arg_cong)
    then show False by simp
  qed
  with malformed show ?thesis
    by (simp add: malformedResponse_def createErrorResponse_def)
next
  case (parse_failure p f)
  from parseInstruction_failure_forms [OF parse_failure(3)] show ?thesis
  proof (elim disjE exE)
    fix c assume "f = instructionFailure c"
    with parse_failure show ?thesis
      by (auto simp: createErrorResponse_def instructionFailure_def recogniserFailure_def)
  next
    assume "f = recogniserFailure SY01"
    with parse_failure show ?thesis by auto
  next
    assume "f = recogniserFailure SY02"
    with parse_failure show ?thesis by auto
  qed
next
  case (rule_failure p accs pd v)
  then show ?thesis
    by (auto simp: createErrorResponse_def)
next
  case (immediate p accs pd)
  then show ?thesis by auto
next
  case (deferred p accs pd)
  then show ?thesis by auto
qed

section \<open>What a passed validation guarantees\<close>



lemma shouldExecuteNow_None [simp]: "shouldExecuteNow h None"
  by (simp add: shouldExecuteNow_def)

section \<open>Responses that settle nothing\<close>

lemma unsettled_accounts_unchanged:
  assumes "status (paymentInstructionService h payload) \<noteq> ''successful''"
  shows "(\<forall>v\<in>set (accounts (paymentInstructionService h payload)).
            balance_before v = Some (balance v)
            \<and> (\<exists>p accs a. payload = Some p \<and> payload_accounts p = AccountsArray accs
                  \<and> a \<in> set accs \<and> acc_id v = acc_id a \<and> balance v = balance a))
         \<and> (status (paymentInstructionService h payload) = ''pending''
              \<longrightarrow> status_code (paymentInstructionService h payload) = AP02)"
proof (cases h payload rule: service_cases)
  case malformed
  then show ?thesis by simp
next
  case (parse_failure p f)
  then show ?thesis by simp
next
  case (rule_failure p accs pd v)
  then show ?thesis
    by (auto simp: accountsResponseLoop_map_filter accountResponse_False)
next
  case (immediate p accs pd)
  with assms show ?thesis by simp
next
  case (deferred p accs pd)
  then show ?thesis
    by (auto simp: accountsResponseLoop_map_filter accountResponse_False)
qed

section \<open>The validator as a cascade\<close>



lemma parseInt_empty [simp]: "parseInt [] = NaN"
  by (simp add: parseInt_def)

lemma toUpperCase_Nil [simp]: "toUpperCase [] = []"
  by (simp add: toUpperCase_def)

lemma supported_not_empty [simp]: "[] \<notin> set SUPPORTED_CURRENCIES"
  by (simp add: SUPPORTED_CURRENCIES_def)




section \<open>An instruction without a date\<close>

lemma executeByOf_last: "onIndex = int (length parts) - 1 \<Longrightarrow> executeByOf parts onIndex = None"
  by (simp add: executeByOf_def)

lemma validateBusinessRules_no_date:
  "execute_by pd = None \<Longrightarrow> validateBusinessRules h pd as \<noteq> Inr (Some (ruleFailure DT01))"
  by (auto simp: validateBusinessRules_def Let_def array_find_def ruleFailure_def
      split: accounts_value.splits option.splits)

section \<open>The store: what is written and what is not\<close>

lemma extends_refl [simp]: "extends st st"
  by (simp add: extends_def)

lemma extends_nth: "extends st st' \<Longrightarrow> a < length st \<Longrightarrow> st' ! a = st ! a"
  by (metis extends_def nth_take)

lemma extends_objectAt: "extends st st' \<Longrightarrow> objectAt st a = Some acc \<Longrightarrow> objectAt st' a = Some acc"
  by (auto simp: objectAt_def extends_nth extends_def split: if_splits)

lemma extends_arrayAt: "extends st st' \<Longrightarrow> arrayAt st a = Some xs \<Longrightarrow> arrayAt st' a = Some xs"
  by (auto simp: arrayAt_def extends_nth extends_def split: if_splits)

lemma extends_readObjects:
  "extends st st' \<Longrightarrow> readObjects st as = Some accs \<Longrightarrow> readObjects st' as = Some accs"
  by (induction as arbitrary: accs) (auto split: option.splits dest: extends_objectAt)

lemma extends_readAccounts:
  assumes "extends st st'" and "readAccounts st a = Some accs"
  shows "readAccounts st' a = Some accs"
proof -
  from assms(2) obtain xs where xs: "arrayAt st a = Some xs" "readObjects st xs = Some accs"
    by (auto simp: readAccounts_def split: option.splits)
  from extends_arrayAt [OF assms(1) xs(1)] extends_readObjects [OF assms(1) xs(2)]
  show ?thesis by (simp add: readAccounts_def)
qed

lemma extends_trans:
  assumes "extends a b" and "extends b c"
  shows "extends a c"
proof -
  from assms have l: "length a \<le> length b" "length b \<le> length c"
    and t: "take (length a) b = a" "take (length b) c = b"
    by (auto simp: extends_def)
  have "take (length a) c = take (length a) (take (length b) c)"
    using l by (simp add: min_def)
  also have "\<dots> = a"
    by (simp only: t)
  finally show ?thesis
    using l by (simp add: extends_def)
qed

lemma extends_append [simp]: "extends st (st @ xs)"
  by (simp add: extends_def)

lemma extends_update: "extends st st' \<Longrightarrow> length st \<le> a \<Longrightarrow> extends st (st'[a := c])"
  by (simp add: extends_def take_update_cancel)


lemma objectAt_not_array: "objectAt st a = Some acc \<Longrightarrow> arrayAt st b = Some xs \<Longrightarrow> a \<noteq> b"
  by (auto simp: objectAt_def arrayAt_def split: if_splits cell.splits)

lemma objectAt_length: "objectAt st a = Some acc \<Longrightarrow> a < length st"
  by (auto simp: objectAt_def split: if_splits)

lemma arrayAt_length: "arrayAt st a = Some xs \<Longrightarrow> a < length st"
  by (auto simp: arrayAt_def split: if_splits)

lemma objectAt_push:
  assumes "objectAt st a = Some acc" and "arrayAt st b = Some xs"
  shows "objectAt ((st @ ys)[b := c]) a = Some acc"
proof -
  have "a \<noteq> b" "a < length st"
    using assms objectAt_not_array objectAt_length by blast+
  with assms(1) show ?thesis
    by (auto simp: objectAt_def nth_append split: if_splits)
qed

lemma readObjects_push:
  "readObjects st as = Some accs \<Longrightarrow> arrayAt st b = Some xs \<Longrightarrow>
   readObjects ((st @ ys)[b := c]) as = Some accs"
  by (induction as arbitrary: accs) (auto split: option.splits simp: objectAt_push)

lemma readObjects_append:
  "readObjects st (as @ bs) =
   (case readObjects st as of
      None \<Rightarrow> None
    | Some xs \<Rightarrow> (case readObjects st bs of None \<Rightarrow> None | Some ys \<Rightarrow> Some (xs @ ys)))"
  by (induction as) (auto split: option.splits)

lemma forEachStore_correct:
  assumes "extends st0 st" and "readObjects st0 elems = Some accs"
    and "length st0 \<le> result" and "arrayAt st result = Some rs"
    and "readObjects st rs = Some vs"
  shows "\<exists>st' rs'. forEachStore st result d c incl elems = Some st' \<and> extends st0 st'
           \<and> arrayAt st' result = Some (rs @ rs') \<and> (\<forall>r\<in>set rs'. length st0 \<le> r)
           \<and> readObjects st' (rs @ rs') = Some (vs @ accountsResponseLoop accs d c incl)"
  using assms
proof (induction elems arbitrary: st rs vs accs)
  case Nil
  then show ?case by auto
next
  case (Cons a rest)
  from Cons.prems(2) obtain acc accs' where
    acc: "objectAt st0 a = Some acc" and rest: "readObjects st0 rest = Some accs'"
    and accs: "accs = acc # accs'"
    by (auto split: option.splits)
  have here: "objectAt st a = Some acc"
    using extends_objectAt [OF Cons.prems(1) acc] .
  show ?case
  proof (cases "acc_id acc = d \<or> acc_id acc = c")
    case False
    from Cons.IH [OF Cons.prems(1) rest Cons.prems(3,4,5)] False here accs
    show ?thesis by auto
  next
    case True
    let ?v = "accountResponse incl acc"
    let ?st1 = "st @ [Object ?v]"
    let ?r = "length st"
    let ?st2 = "?st1[result := Array (rs @ [?r])]"
    have res: "result < length st"
      using Cons.prems(4) by (rule arrayAt_length)
    have a1: "arrayAt ?st1 result = Some rs"
      using Cons.prems(4) res by (simp add: arrayAt_def nth_append)
    have p: "push ?st1 result ?r = Some ?st2"
      by (simp add: push_def a1)
    have e2: "extends st0 ?st2"
      by (intro extends_update extends_trans [OF Cons.prems(1)] Cons.prems(3)) simp
    have a2: "arrayAt ?st2 result = Some (rs @ [?r])"
      using res by (simp add: arrayAt_def)
    have o2: "objectAt ?st2 ?r = Some ?v"
      using res by (simp add: objectAt_def)
    have r2: "readObjects ?st2 (rs @ [?r]) = Some (vs @ [?v])"
      using readObjects_push [OF Cons.prems(5,4)] o2 by (simp add: readObjects_append)
    from Cons.IH [OF e2 rest Cons.prems(3) a2 r2] obtain st' rs' where
      ih: "forEachStore ?st2 result d c incl rest = Some st'" "extends st0 st'"
        "arrayAt st' result = Some ((rs @ [?r]) @ rs')" "\<forall>r\<in>set rs'. length st0 \<le> r"
        "readObjects st' ((rs @ [?r]) @ rs') = Some ((vs @ [?v]) @ accountsResponseLoop accs' d c incl)"
      by blast
    have f: "forEachStore st result d c incl (a # rest) = Some st'"
      using here True p ih(1) by (simp add: allocate_def)
    have fresh: "\<forall>r\<in>set (?r # rs'). length st0 \<le> r"
      using ih(4) Cons.prems(1) by (simp add: extends_def)
    show ?thesis
      using f ih(2,3,5) fresh True accs
      by (intro exI [of _ st'] exI [of _ "?r # rs'"]) simp
  qed
qed

lemma createAccountsResponseStore_correct:
  assumes "readAccounts st arr = Some accs"
  shows "\<exists>st' result rs. createAccountsResponseStore st arr d c incl = Some (st', result)
           \<and> extends st st' \<and> length st \<le> result
           \<and> arrayAt st' result = Some rs \<and> (\<forall>r\<in>set rs. length st \<le> r)
           \<and> readAccounts st' result = Some (accountsResponseLoop accs d c incl)"
proof -
  from assms obtain elems where
    elems: "arrayAt st arr = Some elems" "readObjects st elems = Some accs"
    by (auto simp: readAccounts_def split: option.splits)
  let ?st1 = "st @ [Array []]"
  have "arrayAt ?st1 (length st) = Some []" "readObjects ?st1 [] = Some []" "extends st ?st1"
    by (simp_all add: arrayAt_def)
  from forEachStore_correct [OF this(3) elems(2) order_refl this(1,2), of d c incl]
  obtain st' rs' where
    "forEachStore ?st1 (length st) d c incl elems = Some st'" "extends st st'"
    "arrayAt st' (length st) = Some rs'" "\<forall>r\<in>set rs'. length st \<le> r"
    "readObjects st' rs' = Some (accountsResponseLoop accs d c incl)"
    by auto
  then show ?thesis
    using elems(1)
    by (intro exI [of _ st'] exI [of _ "length st"] exI [of _ rs'])
      (simp add: createAccountsResponseStore_def allocate_def readAccounts_def)
qed

lemma mapObjects_correct:
  assumes "extends st0 st" and "readObjects st0 elems = Some accs"
  shows "\<exists>st' rs. mapObjects st f elems = Some (st', rs) \<and> extends st st'
           \<and> (\<forall>r\<in>set rs. length st \<le> r) \<and> readObjects st' rs = Some (map f accs)"
  using assms
proof (induction elems arbitrary: st accs)
  case Nil
  then show ?case by auto
next
  case (Cons a rest)
  from Cons.prems(2) obtain acc accs' where
    acc: "objectAt st0 a = Some acc" and rest: "readObjects st0 rest = Some accs'"
    and accs: "accs = acc # accs'"
    by (auto split: option.splits)
  have here: "objectAt st a = Some acc"
    using extends_objectAt [OF Cons.prems(1) acc] .
  let ?st1 = "st @ [Object (f acc)]"
  have e1: "extends st0 ?st1"
    by (rule extends_trans [OF Cons.prems(1)]) simp
  from Cons.IH [OF e1 rest] obtain st' rs where
    ih: "mapObjects ?st1 f rest = Some (st', rs)" "extends ?st1 st'"
      "\<forall>r\<in>set rs. length ?st1 \<le> r" "readObjects st' rs = Some (map f accs')"
    by blast
  have "objectAt ?st1 (length st) = Some (f acc)"
    by (simp add: objectAt_def)
  then have o: "objectAt st' (length st) = Some (f acc)"
    using extends_objectAt [OF ih(2)] by blast
  have e: "extends st st'"
    by (rule extends_trans [OF _ ih(2)]) simp
  have "\<forall>r\<in>set (length st # rs). length st \<le> r"
    using ih(3) by auto
  then show ?case
    using here ih(1,4) o e accs
    by (intro exI [of _ st'] exI [of _ "length st # rs"]) (simp add: allocate_def)
qed

lemma mapStore_correct:
  assumes "readAccounts st arr = Some accs"
  shows "\<exists>st' result. mapStore st f arr = Some (st', result) \<and> extends st st'
           \<and> length st \<le> result \<and> readAccounts st' result = Some (map f accs)"
proof -
  from assms obtain elems where
    elems: "arrayAt st arr = Some elems" "readObjects st elems = Some accs"
    by (auto simp: readAccounts_def split: option.splits)
  from mapObjects_correct [OF extends_refl elems(2), of f] obtain st1 rs where
    m: "mapObjects st f elems = Some (st1, rs)" "extends st st1"
      "readObjects st1 rs = Some (map f accs)"
    by blast
  let ?st' = "st1 @ [Array rs]"
  have e: "extends st1 ?st'" by simp
  have "readAccounts ?st' (length st1) = Some (map f accs)"
    using extends_readObjects [OF e m(3)] by (simp add: readAccounts_def arrayAt_def)
  moreover have "length st \<le> length st1"
    using m(2) by (simp add: extends_def)
  ultimately show ?thesis
    using elems(1) m(1) extends_trans [OF m(2) e]
    by (intro exI [of _ ?st'] exI [of _ "length st1"]) (simp add: mapStore_def allocate_def)
qed

lemma executeTransactionStore_correct:
  assumes "readAccounts st arr = Some accs"
  shows "\<exists>st' result rs s. executeTransactionStore h pd st arr = Some (st', s_status_code s, result)
           \<and> extends st st' \<and> length st \<le> result
           \<and> arrayAt st' result = Some rs \<and> (\<forall>r\<in>set rs. length st \<le> r)
           \<and> executeTransaction h pd (AccountsArray accs) = Inr s
           \<and> readAccounts st' result = Some (s_accounts s)"
proof (cases "shouldExecuteNow h (execute_by pd)")
  case False
  from createAccountsResponseStore_correct [OF assms, of "debit_account pd" "credit_account pd" False]
  obtain st' result rs where
    "createAccountsResponseStore st arr (debit_account pd) (credit_account pd) False
       = Some (st', result)"
    "extends st st'" "length st \<le> result" "arrayAt st' result = Some rs"
    "\<forall>r\<in>set rs. length st \<le> r"
    "readAccounts st' result
       = Some (accountsResponseLoop accs (debit_account pd) (credit_account pd) False)"
    by blast
  then show ?thesis
    using False
    by (intro exI [of _ st'] exI [of _ result] exI [of _ rs]
        exI [of _ "\<lparr>s_status = ''pending'', s_status_reason = STATUS_CODES AP02,
                    s_status_code = AP02,
                    s_accounts = accountsResponseLoop accs (debit_account pd) (credit_account pd) False\<rparr>"])
      (simp add: executeTransactionStore_def executeTransaction_array)
next
  case True
  let ?f = "updateAccount (debit_account pd) (credit_account pd) (parseInt (amount pd))"
  from mapStore_correct [OF assms, of ?f] obtain st1 updated where
    m: "mapStore st ?f arr = Some (st1, updated)" "extends st st1"
      "readAccounts st1 updated = Some (map ?f accs)"
    by blast
  from createAccountsResponseStore_correct [OF m(3), of "debit_account pd" "credit_account pd" True]
  obtain st' result rs where
    c: "createAccountsResponseStore st1 updated (debit_account pd) (credit_account pd) True
         = Some (st', result)"
      "extends st1 st'" "length st1 \<le> result" "arrayAt st' result = Some rs"
      "\<forall>r\<in>set rs. length st1 \<le> r"
      "readAccounts st' result
         = Some (accountsResponseLoop (map ?f accs) (debit_account pd) (credit_account pd) True)"
    by blast
  have l: "length st \<le> length st1"
    using m(2) by (simp add: extends_def)
  have "\<forall>r\<in>set rs. length st \<le> r"
    using c(5) l by auto
  then show ?thesis
    using True m(1) c(1,3,4,6) l extends_trans [OF m(2) c(2)]
    by (intro exI [of _ st'] exI [of _ result] exI [of _ rs]
        exI [of _ "\<lparr>s_status = ''successful'', s_status_reason = STATUS_CODES AP00,
                    s_status_code = AP00,
                    s_accounts = accountsResponseLoop (map ?f accs)
                      (debit_account pd) (credit_account pd) True\<rparr>"])
      (simp add: executeTransactionStore_def executeTransaction_array)
qed



text \<open>
  C2 does not hold for the code. \<^verbatim>\<open>isDateInPastOrToday\<close> reads the current date with the
  UTC getters but passes it to \<^verbatim>\<open>new Date(year, month, day)\<close>, which takes its
  arguments in local time. So on every host east of UTC (whose clock is not before 1970),
  an instruction that passes parsing and validation and whose execution date is the
  current UTC date is deferred (pending, AP02), where the claim settles it at once.
\<close>

theorem due_today_deferred_east_of_utc:
  assumes "0 \<le> currentTime h" and "0 < localTZA h"
    and "parseInstruction (JString instr) = Inr pd"
    and "validateBusinessRules h pd (AccountsArray accs) = Inr None"
    and "execute_by pd = Some s" and "parseDateUTCMidnight s = Some t"
    and "t div msPerDay = currentTime h div msPerDay"
  shows "status (paymentInstructionService h
            (Some \<lparr>instruction = JString instr, payload_accounts = AccountsArray accs\<rparr>))
           = ''pending''
         \<and> status_code (paymentInstructionService h
            (Some \<lparr>instruction = JString instr, payload_accounts = AccountsArray accs\<rparr>))
           = AP02"
proof -
  let ?p = "\<lparr>instruction = JString instr, payload_accounts = AccountsArray accs\<rparr>"
  have "\<not> isDateInPastOrToday h s"
    using assms(1,2,6,7) by (rule isDateInPastOrToday_east)
  moreover have "s \<noteq> []"
    using assms(6) by (rule parseDateUTCMidnight_nonempty)
  ultimately have "\<not> shouldExecuteNow h (execute_by pd)"
    by (simp add: shouldExecuteNow_def assms(5))
  with service_settlement [of ?p accs pd h] assms(3,4) show ?thesis
    by simp
qed

text \<open>
  A host one hour east of UTC at 2025-06-15T12:00:00Z, and an instruction due on
  2025-06-15: the date's UTC midnight is compared with 2025-06-14T23:00:00Z. On a host
  whose local time is UTC the same call settles the instruction.
\<close>

theorem due_today_deferred_east_of_utc_witness:
  "getUTCFullYear 1749988800000 = 2025 \<and> getUTCMonth 1749988800000 = 5
   \<and> getUTCDate 1749988800000 = 15
   \<and> parseDateUTCMidnight ''2025-06-15'' = Some 1749945600000
   \<and> newDateLocal \<lparr>currentTime = 1749988800000, localTZA = 3600000\<rparr> 2025 5 15 = 1749942000000
   \<and> status (paymentInstructionService \<lparr>currentTime = 1749988800000, localTZA = 3600000\<rparr>
       (Some \<lparr>instruction =
                JString ''DEBIT 500 NGN FROM ACCOUNT A1 FOR CREDIT TO ACCOUNT B2 ON 2025-06-15'',
          payload_accounts = AccountsArray
            [\<lparr>acc_id = ''A1'', balance = Num 1000, acc_currency = ''NGN'', balance_before = None\<rparr>,
             \<lparr>acc_id = ''B2'', balance = Num 200, acc_currency = ''NGN'', balance_before = None\<rparr>]\<rparr>))
     = ''pending''
   \<and> status_code (paymentInstructionService \<lparr>currentTime = 1749988800000, localTZA = 3600000\<rparr>
       (Some \<lparr>instruction =
                JString ''DEBIT 500 NGN FROM ACCOUNT A1 FOR CREDIT TO ACCOUNT B2 ON 2025-06-15'',
          payload_accounts = AccountsArray
            [\<lparr>acc_id = ''A1'', balance = Num 1000, acc_currency = ''NGN'', balance_before = None\<rparr>,
             \<lparr>acc_id = ''B2'', balance = Num 200, acc_currency = ''NGN'', balance_before = None\<rparr>]\<rparr>))
     = AP02
   \<and> status (paymentInstructionService \<lparr>currentTime = 1749988800000, localTZA = 0\<rparr>
       (Some \<lparr>instruction =
                JString ''DEBIT 500 NGN FROM ACCOUNT A1 FOR CREDIT TO ACCOUNT B2 ON 2025-06-15'',
          payload_accounts = AccountsArray
            [\<lparr>acc_id = ''A1'', balance = Num 1000, acc_currency = ''NGN'', balance_before = None\<rparr>,
             \<lparr>acc_id = ''B2'', balance = Num 200, acc_currency = ''NGN'', balance_before = None\<rparr>]\<rparr>))
     = ''successful''"
proof -
  let ?h = "\<lparr>currentTime = 1749988800000, localTZA = 3600000\<rparr>"
  let ?s = "''DEBIT 500 NGN FROM ACCOUNT A1 FOR CREDIT TO ACCOUNT B2 ON 2025-06-15''"
  let ?accs = "[\<lparr>acc_id = ''A1'', balance = Num 1000, acc_currency = ''NGN'', balance_before = None\<rparr>,
    \<lparr>acc_id = ''B2'', balance = Num 200, acc_currency = ''NGN'', balance_before = None\<rparr>]"
  let ?pd = "\<lparr>amount = ''500'', currency = ''NGN'', debit_account = ''A1'',
    credit_account = ''B2'', execute_by = Some ''2025-06-15'', instruction_type = ''DEBIT''\<rparr>"
  have clock: "getUTCFullYear 1749988800000 = 2025 \<and> getUTCMonth 1749988800000 = 5
      \<and> getUTCDate 1749988800000 = 15"
    by code_simp
  have local: "newDateLocal ?h 2025 5 15 = 1749942000000"
    by code_simp
  have p: "parseInstruction (JString ?s) = Inr ?pd"
    by code_simp
  have v: "validateBusinessRules ?h ?pd (AccountsArray ?accs) = Inr None"
    by code_simp
  have d: "parseDateUTCMidnight ''2025-06-15'' = Some 1749945600000"
    by code_simp
  have today: "(1749945600000 :: int) div msPerDay = currentTime ?h div msPerDay"
    by (simp add: msPerDay_def)
  have utc: "status (paymentInstructionService \<lparr>currentTime = 1749988800000, localTZA = 0\<rparr>
      (Some \<lparr>instruction = JString ?s, payload_accounts = AccountsArray ?accs\<rparr>)) = ''successful''"
    by code_simp
  from due_today_deferred_east_of_utc [of ?h ?s ?pd ?accs "''2025-06-15''" 1749945600000]
    p v d today
  have "status (paymentInstructionService ?h
      (Some \<lparr>instruction = JString ?s, payload_accounts = AccountsArray ?accs\<rparr>)) = ''pending''
    \<and> status_code (paymentInstructionService ?h
      (Some \<lparr>instruction = JString ?s, payload_accounts = AccountsArray ?accs\<rparr>)) = AP02"
    by simp
  with clock local d utc show ?thesis
    by simp
qed






text \<open>
  C5. (1) Whenever the response is not "successful" (the instruction is deferred, fails
  validation or fails to parse), every returned account carries \<open>balance_before\<close> equal
  to its balance and is the entry of a snapshot account with that account's balance; a
  pending response has status code AP02. (2) and (3) Over the store, on both paths of
  \<^verbatim>\<open>executeTransaction\<close> and in \<^verbatim>\<open>createAccountsResponse\<close>: every cell that existed
  before the call is unchanged after it, so the caller's array still holds the same
  account objects; the returned array and all its elements are cells allocated by the
  call; and the returned array holds the accounts that the functions on values compute.
\<close>

theorem accounts_never_mutated:
  "(status (paymentInstructionService h payload) \<noteq> ''successful'' \<longrightarrow>
      (\<forall>v\<in>set (accounts (paymentInstructionService h payload)).
          balance_before v = Some (balance v)
          \<and> (\<exists>p accs a. payload = Some p \<and> payload_accounts p = AccountsArray accs
                \<and> a \<in> set accs \<and> acc_id v = acc_id a \<and> balance v = balance a))
      \<and> (status (paymentInstructionService h payload) = ''pending''
           \<longrightarrow> status_code (paymentInstructionService h payload) = AP02))
   \<and> (readAccounts st arr = Some accs \<longrightarrow>
        (\<exists>st' result rs s.
            executeTransactionStore h pd st arr = Some (st', s_status_code s, result)
            \<and> extends st st' \<and> readAccounts st' arr = Some accs
            \<and> length st \<le> result \<and> arrayAt st' result = Some rs
            \<and> (\<forall>r\<in>set rs. length st \<le> r)
            \<and> executeTransaction h pd (AccountsArray accs) = Inr s
            \<and> readAccounts st' result = Some (s_accounts s)))
   \<and> (readAccounts st arr = Some accs \<longrightarrow>
        (\<exists>st' result rs.
            createAccountsResponseStore st arr d c incl = Some (st', result)
            \<and> extends st st' \<and> readAccounts st' arr = Some accs
            \<and> length st \<le> result \<and> arrayAt st' result = Some rs
            \<and> (\<forall>r\<in>set rs. length st \<le> r)
            \<and> readAccounts st' result = Some (accountsResponseLoop accs d c incl)))"
proof (intro conjI impI)
  assume "status (paymentInstructionService h payload) \<noteq> ''successful''"
  from unsettled_accounts_unchanged [OF this]
  show "\<forall>v\<in>set (accounts (paymentInstructionService h payload)).
          balance_before v = Some (balance v)
          \<and> (\<exists>p accs a. payload = Some p \<and> payload_accounts p = AccountsArray accs
                \<and> a \<in> set accs \<and> acc_id v = acc_id a \<and> balance v = balance a)"
    by blast
next
  assume "status (paymentInstructionService h payload) \<noteq> ''successful''"
    and "status (paymentInstructionService h payload) = ''pending''"
  with unsettled_accounts_unchanged [of h payload]
  show "status_code (paymentInstructionService h payload) = AP02"
    by blast
next
  assume r: "readAccounts st arr = Some accs"
  from executeTransactionStore_correct [OF r, of h pd] obtain st' result rs s where
    x: "executeTransactionStore h pd st arr = Some (st', s_status_code s, result)"
      "extends st st'" "length st \<le> result" "arrayAt st' result = Some rs"
      "\<forall>r\<in>set rs. length st \<le> r" "executeTransaction h pd (AccountsArray accs) = Inr s"
      "readAccounts st' result = Some (s_accounts s)"
    by blast
  from extends_readAccounts [OF x(2) r] x
  show "\<exists>st' result rs s.
          executeTransactionStore h pd st arr = Some (st', s_status_code s, result)
          \<and> extends st st' \<and> readAccounts st' arr = Some accs
          \<and> length st \<le> result \<and> arrayAt st' result = Some rs
          \<and> (\<forall>r\<in>set rs. length st \<le> r)
          \<and> executeTransaction h pd (AccountsArray accs) = Inr s
          \<and> readAccounts st' result = Some (s_accounts s)"
    by blast
next
  assume r: "readAccounts st arr = Some accs"
  from createAccountsResponseStore_correct [OF r, of d c incl] obtain st' result rs where
    x: "createAccountsResponseStore st arr d c incl = Some (st', result)"
      "extends st st'" "length st \<le> result" "arrayAt st' result = Some rs"
      "\<forall>r\<in>set rs. length st \<le> r"
      "readAccounts st' result = Some (accountsResponseLoop accs d c incl)"
    by blast
  from extends_readAccounts [OF x(2) r] x
  show "\<exists>st' result rs.
          createAccountsResponseStore st arr d c incl = Some (st', result)
          \<and> extends st st' \<and> readAccounts st' arr = Some accs
          \<and> length st \<le> result \<and> arrayAt st' result = Some rs
          \<and> (\<forall>r\<in>set rs. length st \<le> r)
          \<and> readAccounts st' result = Some (accountsResponseLoop accs d c incl)"
    by blast
qed

theorem accounts_never_mutated_witness:
  "status (paymentInstructionService \<lparr>currentTime = 0, localTZA = 0\<rparr>
      (Some \<lparr>instruction = JString ''DEBIT 500 NGN FROM ACCOUNT A1 FOR CREDIT TO ACCOUNT B2 ON 2025-06-15'',
         payload_accounts = AccountsArray
           [\<lparr>acc_id = ''A1'', balance = Num 1000, acc_currency = ''ngn'', balance_before = None\<rparr>,
            \<lparr>acc_id = ''C3'', balance = Num 1, acc_currency = ''USD'', balance_before = None\<rparr>,
            \<lparr>acc_id = ''B2'', balance = Num 200, acc_currency = ''NGN'', balance_before = None\<rparr>]\<rparr>))
     = ''pending''
   \<and> status_code (paymentInstructionService \<lparr>currentTime = 0, localTZA = 0\<rparr>
      (Some \<lparr>instruction = JString ''DEBIT 500 NGN FROM ACCOUNT A1 FOR CREDIT TO ACCOUNT B2 ON 2025-06-15'',
         payload_accounts = AccountsArray
           [\<lparr>acc_id = ''A1'', balance = Num 1000, acc_currency = ''ngn'', balance_before = None\<rparr>,
            \<lparr>acc_id = ''C3'', balance = Num 1, acc_currency = ''USD'', balance_before = None\<rparr>,
            \<lparr>acc_id = ''B2'', balance = Num 200, acc_currency = ''NGN'', balance_before = None\<rparr>]\<rparr>))
     = AP02
   \<and> accounts (paymentInstructionService \<lparr>currentTime = 0, localTZA = 0\<rparr>
      (Some \<lparr>instruction = JString ''DEBIT 500 NGN FROM ACCOUNT A1 FOR CREDIT TO ACCOUNT B2 ON 2025-06-15'',
         payload_accounts = AccountsArray
           [\<lparr>acc_id = ''A1'', balance = Num 1000, acc_currency = ''ngn'', balance_before = None\<rparr>,
            \<lparr>acc_id = ''C3'', balance = Num 1, acc_currency = ''USD'', balance_before = None\<rparr>,
            \<lparr>acc_id = ''B2'', balance = Num 200, acc_currency = ''NGN'', balance_before = None\<rparr>]\<rparr>))
     = [\<lparr>acc_id = ''A1'', balance = Num 1000, acc_currency = ''NGN'', balance_before = Some (Num 1000)\<rparr>,
        \<lparr>acc_id = ''B2'', balance = Num 200, acc_currency = ''NGN'', balance_before = Some (Num 200)\<rparr>]
   \<and> readAccounts
       [Object \<lparr>acc_id = ''A1'', balance = Num 1000, acc_currency = ''ngn'', balance_before = None\<rparr>,
        Object \<lparr>acc_id = ''C3'', balance = Num 1, acc_currency = ''USD'', balance_before = None\<rparr>,
        Object \<lparr>acc_id = ''B2'', balance = Num 200, acc_currency = ''NGN'', balance_before = None\<rparr>,
        Array [0, 1, 2]] 3
     = Some [\<lparr>acc_id = ''A1'', balance = Num 1000, acc_currency = ''ngn'', balance_before = None\<rparr>,
             \<lparr>acc_id = ''C3'', balance = Num 1, acc_currency = ''USD'', balance_before = None\<rparr>,
             \<lparr>acc_id = ''B2'', balance = Num 200, acc_currency = ''NGN'', balance_before = None\<rparr>]
   \<and> (\<exists>st'. executeTransactionStore \<lparr>currentTime = 0, localTZA = 0\<rparr>
          \<lparr>amount = ''500'', currency = ''NGN'', debit_account = ''A1'', credit_account = ''B2'',
           execute_by = None, instruction_type = ''DEBIT''\<rparr>
          [Object \<lparr>acc_id = ''A1'', balance = Num 1000, acc_currency = ''ngn'', balance_before = None\<rparr>,
           Object \<lparr>acc_id = ''C3'', balance = Num 1, acc_currency = ''USD'', balance_before = None\<rparr>,
           Object \<lparr>acc_id = ''B2'', balance = Num 200, acc_currency = ''NGN'', balance_before = None\<rparr>,
           Array [0, 1, 2]] 3
          = Some (st', AP00, 8)
        \<and> readAccounts st' 3
          = Some [\<lparr>acc_id = ''A1'', balance = Num 1000, acc_currency = ''ngn'', balance_before = None\<rparr>,
                  \<lparr>acc_id = ''C3'', balance = Num 1, acc_currency = ''USD'', balance_before = None\<rparr>,
                  \<lparr>acc_id = ''B2'', balance = Num 200, acc_currency = ''NGN'', balance_before = None\<rparr>]
        \<and> readAccounts st' 8
          = Some [\<lparr>acc_id = ''A1'', balance = Num 500, acc_currency = ''NGN'',
                    balance_before = Some (Num 1000)\<rparr>,
                  \<lparr>acc_id = ''B2'', balance = Num 700, acc_currency = ''NGN'',
                    balance_before = Some (Num 200)\<rparr>])
   \<and> (\<exists>st'. createAccountsResponseStore
          [Object \<lparr>acc_id = ''A1'', balance = Num 1000, acc_currency = ''ngn'', balance_before = None\<rparr>,
           Object \<lparr>acc_id = ''C3'', balance = Num 1, acc_currency = ''USD'', balance_before = None\<rparr>,
           Object \<lparr>acc_id = ''B2'', balance = Num 200, acc_currency = ''NGN'', balance_before = None\<rparr>,
           Array [0, 1, 2]] 3 ''A1'' ''B2'' False
          = Some (st', 4)
        \<and> readAccounts st' 3
          = Some [\<lparr>acc_id = ''A1'', balance = Num 1000, acc_currency = ''ngn'', balance_before = None\<rparr>,
                  \<lparr>acc_id = ''C3'', balance = Num 1, acc_currency = ''USD'', balance_before = None\<rparr>,
                  \<lparr>acc_id = ''B2'', balance = Num 200, acc_currency = ''NGN'', balance_before = None\<rparr>]
        \<and> readAccounts st' 4
          = Some [\<lparr>acc_id = ''A1'', balance = Num 1000, acc_currency = ''NGN'',
                    balance_before = Some (Num 1000)\<rparr>,
                  \<lparr>acc_id = ''B2'', balance = Num 200, acc_currency = ''NGN'',
                    balance_before = Some (Num 200)\<rparr>])"
proof -
  let ?h = "\<lparr>currentTime = 0, localTZA = 0\<rparr>"
  let ?a1 = "\<lparr>acc_id = ''A1'', balance = Num 1000, acc_currency = ''ngn'', balance_before = None\<rparr>"
  let ?c3 = "\<lparr>acc_id = ''C3'', balance = Num 1, acc_currency = ''USD'', balance_before = None\<rparr>"
  let ?b2 = "\<lparr>acc_id = ''B2'', balance = Num 200, acc_currency = ''NGN'', balance_before = None\<rparr>"
  let ?accs = "[?a1, ?c3, ?b2]"
  let ?st = "[Object ?a1, Object ?c3, Object ?b2, Array [0, 1, 2]]"
  let ?p = "Some \<lparr>instruction =
      JString ''DEBIT 500 NGN FROM ACCOUNT A1 FOR CREDIT TO ACCOUNT B2 ON 2025-06-15'',
    payload_accounts = AccountsArray ?accs\<rparr>"
  let ?pd = "\<lparr>amount = ''500'', currency = ''NGN'', debit_account = ''A1'',
    credit_account = ''B2'', execute_by = None, instruction_type = ''DEBIT''\<rparr>"
  have s: "status (paymentInstructionService ?h ?p) = ''pending''"
    by code_simp
  have a: "accounts (paymentInstructionService ?h ?p) =
      [\<lparr>acc_id = ''A1'', balance = Num 1000, acc_currency = ''NGN'', balance_before = Some (Num 1000)\<rparr>,
       \<lparr>acc_id = ''B2'', balance = Num 200, acc_currency = ''NGN'', balance_before = Some (Num 200)\<rparr>]"
    by code_simp
  have r: "readAccounts ?st 3 = Some ?accs"
    by code_simp
  have x: "map_option snd (executeTransactionStore ?h ?pd ?st 3) = Some (AP00, 8)"
    by code_simp
  have xs: "executeTransaction ?h ?pd (AccountsArray ?accs) =
      Inr \<lparr>s_status = ''successful'', s_status_reason = STATUS_CODES AP00, s_status_code = AP00,
           s_accounts =
             [\<lparr>acc_id = ''A1'', balance = Num 500, acc_currency = ''NGN'',
                balance_before = Some (Num 1000)\<rparr>,
              \<lparr>acc_id = ''B2'', balance = Num 700, acc_currency = ''NGN'',
                balance_before = Some (Num 200)\<rparr>]\<rparr>"
    by code_simp
  have c: "map_option snd (createAccountsResponseStore ?st 3 ''A1'' ''B2'' False) = Some 4"
    by code_simp
  have cs: "accountsResponseLoop ?accs ''A1'' ''B2'' False =
      [\<lparr>acc_id = ''A1'', balance = Num 1000, acc_currency = ''NGN'', balance_before = Some (Num 1000)\<rparr>,
       \<lparr>acc_id = ''B2'', balance = Num 200, acc_currency = ''NGN'', balance_before = Some (Num 200)\<rparr>]"
    by code_simp
  note t = accounts_never_mutated [of ?h ?p ?st 3 ?accs ?pd "''A1''" "''B2''" False]
  from t s have code: "status_code (paymentInstructionService ?h ?p) = AP02"
    by simp
  from t r obtain st1 result s where
    e: "executeTransactionStore ?h ?pd ?st 3 = Some (st1, s_status_code s, result)"
      "readAccounts st1 3 = Some ?accs"
      "executeTransaction ?h ?pd (AccountsArray ?accs) = Inr s"
      "readAccounts st1 result = Some (s_accounts s)"
    by blast
  from e(1) x have e1: "s_status_code s = AP00" "result = 8"
    by simp_all
  from e(3) xs have "s_accounts s =
      [\<lparr>acc_id = ''A1'', balance = Num 500, acc_currency = ''NGN'', balance_before = Some (Num 1000)\<rparr>,
       \<lparr>acc_id = ''B2'', balance = Num 700, acc_currency = ''NGN'', balance_before = Some (Num 200)\<rparr>]"
    by auto
  with e e1 have part2: "\<exists>st'. executeTransactionStore ?h ?pd ?st 3 = Some (st', AP00, 8)
        \<and> readAccounts st' 3 = Some ?accs
        \<and> readAccounts st' 8
          = Some [\<lparr>acc_id = ''A1'', balance = Num 500, acc_currency = ''NGN'',
                    balance_before = Some (Num 1000)\<rparr>,
                  \<lparr>acc_id = ''B2'', balance = Num 700, acc_currency = ''NGN'',
                    balance_before = Some (Num 200)\<rparr>]"
    by auto
  from t r obtain st2 result2 where
    f: "createAccountsResponseStore ?st 3 ''A1'' ''B2'' False = Some (st2, result2)"
      "readAccounts st2 3 = Some ?accs"
      "readAccounts st2 result2 = Some (accountsResponseLoop ?accs ''A1'' ''B2'' False)"
    by blast
  from f(1) c have "result2 = 4"
    by simp
  with f cs have part3: "\<exists>st'. createAccountsResponseStore ?st 3 ''A1'' ''B2'' False = Some (st', 4)
        \<and> readAccounts st' 3 = Some ?accs
        \<and> readAccounts st' 4
          = Some [\<lparr>acc_id = ''A1'', balance = Num 1000, acc_currency = ''NGN'',
                    balance_before = Some (Num 1000)\<rparr>,
                  \<lparr>acc_id = ''B2'', balance = Num 200, acc_currency = ''NGN'',
                    balance_before = Some (Num 200)\<rparr>]"
    by auto
  from s code a r part2 part3 show ?thesis
    by blast
qed



text \<open>
  C7 does not hold for the code. Whenever a recogniser fails (SY01 or SY02: an instruction
  with at least 8 tokens that begins with DEBIT or CREDIT and has an anchor unresolved or
  out of order), the failure object has no instruction fields, and the response carries
  \<^verbatim>\<open>type\<close>, \<^verbatim>\<open>debit_account\<close>, \<^verbatim>\<open>credit_account\<close> and \<^verbatim>\<open>execute_by\<close> as
  \<^verbatim>\<open>undefined\<close>, not as explicit nulls.
\<close>

theorem recogniser_failure_fields_undefined:
  assumes "8 \<le> length (tokens s)"
    and "(tokens s ! 0 = ''DEBIT'' \<and> anchors = debitAnchors (tokens s))
         \<or> (tokens s ! 0 = ''CREDIT'' \<and> anchors = creditAnchors (tokens s))"
    and "- 1 \<in> set (anchorList anchors) \<or> \<not> sorted_wrt (<) (anchorList anchors)"
    and "truthyAccounts as"
  shows "r_type (paymentInstructionService h
            (Some \<lparr>instruction = JString s, payload_accounts = as\<rparr>)) = Undefined
       \<and> r_debit_account (paymentInstructionService h
            (Some \<lparr>instruction = JString s, payload_accounts = as\<rparr>)) = Undefined
       \<and> r_credit_account (paymentInstructionService h
            (Some \<lparr>instruction = JString s, payload_accounts = as\<rparr>)) = Undefined
       \<and> r_execute_by (paymentInstructionService h
            (Some \<lparr>instruction = JString s, payload_accounts = as\<rparr>)) = Undefined
       \<and> status (paymentInstructionService h
            (Some \<lparr>instruction = JString s, payload_accounts = as\<rparr>)) = ''failed''
       \<and> status_code (paymentInstructionService h
            (Some \<lparr>instruction = JString s, payload_accounts = as\<rparr>))
           = (if - 1 \<in> set (anchorList anchors) then SY01 else SY02)"
proof -
  let ?p = "\<lparr>instruction = JString s, payload_accounts = as\<rparr>"
  let ?c = "if - 1 \<in> set (anchorList anchors) then SY01 else SY02"
  have f: "parseInstruction (instruction ?p) = Inl (recogniserFailure ?c)"
    using parseInstruction_phases [OF assms(1,2)] assms(3) by auto
  have t: "truthy (instruction ?p)"
    using tokens_long_nonempty [OF assms(1)] by simp
  have a: "truthyAccounts (payload_accounts ?p)"
    using assms(4) by simp
  show ?thesis
    unfolding service_parse_failure [OF a t f] by simp
qed

text \<open>
  An instruction that lacks the second ACCOUNT keyword, and, for comparison, one with an
  unknown leading keyword: \<^verbatim>\<open>parseInstruction\<close> builds that failure itself, also with
  SY01, and sets the six fields to null.
\<close>

theorem recogniser_failure_fields_undefined_witness:
  "tokens ''DEBIT 500 NGN FROM ACCOUNT A1 FOR CREDIT TO ACCT B2''
     = [''DEBIT'', ''500'', ''NGN'', ''FROM'', ''ACCOUNT'', ''A1'', ''FOR'', ''CREDIT'', ''TO'',
        ''ACCT'', ''B2'']
   \<and> debitAnchors (tokens ''DEBIT 500 NGN FROM ACCOUNT A1 FOR CREDIT TO ACCT B2'')
     = (3, 4, 6, 7, 8, - 1)
   \<and> paymentInstructionService \<lparr>currentTime = 0, localTZA = 0\<rparr>
     (Some \<lparr>instruction = JString ''DEBIT 500 NGN FROM ACCOUNT A1 FOR CREDIT TO ACCT B2'',
            payload_accounts = AccountsArray
              [\<lparr>acc_id = ''A1'', balance = Num 1000, acc_currency = ''NGN'', balance_before = None\<rparr>,
               \<lparr>acc_id = ''B2'', balance = Num 200, acc_currency = ''NGN'', balance_before = None\<rparr>]\<rparr>)
   = \<lparr>r_type = Undefined, r_amount = Null, r_currency = Null, r_debit_account = Undefined,
      r_credit_account = Undefined, r_execute_by = Undefined, status = ''failed'',
      status_reason = ''Missing required keyword'', status_code = SY01, accounts = []\<rparr>
   \<and> paymentInstructionService \<lparr>currentTime = 0, localTZA = 0\<rparr>
     (Some \<lparr>instruction = JString ''PAY 500 NGN FROM ACCOUNT A1 FOR CREDIT TO ACCOUNT B2'',
            payload_accounts = AccountsArray
              [\<lparr>acc_id = ''A1'', balance = Num 1000, acc_currency = ''NGN'', balance_before = None\<rparr>,
               \<lparr>acc_id = ''B2'', balance = Num 200, acc_currency = ''NGN'', balance_before = None\<rparr>]\<rparr>)
   = \<lparr>r_type = Null, r_amount = Null, r_currency = Null, r_debit_account = Null,
      r_credit_account = Null, r_execute_by = Null, status = ''failed'',
      status_reason = ''Missing required keyword'', status_code = SY01, accounts = []\<rparr>"
proof -
  let ?h = "\<lparr>currentTime = 0, localTZA = 0\<rparr>"
  let ?s = "''DEBIT 500 NGN FROM ACCOUNT A1 FOR CREDIT TO ACCT B2''"
  let ?as = "AccountsArray
    [\<lparr>acc_id = ''A1'', balance = Num 1000, acc_currency = ''NGN'', balance_before = None\<rparr>,
     \<lparr>acc_id = ''B2'', balance = Num 200, acc_currency = ''NGN'', balance_before = None\<rparr>]"
  let ?r = "paymentInstructionService ?h (Some \<lparr>instruction = JString ?s, payload_accounts = ?as\<rparr>)"
  have t: "tokens ?s = [''DEBIT'', ''500'', ''NGN'', ''FROM'', ''ACCOUNT'', ''A1'', ''FOR'',
      ''CREDIT'', ''TO'', ''ACCT'', ''B2'']"
    by code_simp
  have a: "debitAnchors (tokens ?s) = (3, 4, 6, 7, 8, - 1)"
    by code_simp
  have pre: "8 \<le> length (tokens ?s)" "tokens ?s ! 0 = ''DEBIT''"
    "- 1 \<in> set (anchorList (debitAnchors (tokens ?s)))"
    unfolding a by (simp_all add: t)
  from recogniser_failure_fields_undefined [of ?s "debitAnchors (tokens ?s)" ?as ?h] pre
  have u: "r_type ?r = Undefined" "r_debit_account ?r = Undefined"
    "r_credit_account ?r = Undefined" "r_execute_by ?r = Undefined" "status ?r = ''failed''"
    "status_code ?r = SY01"
    by simp_all
  have rest: "r_amount ?r = Null" "r_currency ?r = Null"
    "status_reason ?r = ''Missing required keyword''" "accounts ?r = []"
    by code_simp+
  have whole: "?r = \<lparr>r_type = Undefined, r_amount = Null, r_currency = Null,
      r_debit_account = Undefined, r_credit_account = Undefined, r_execute_by = Undefined,
      status = ''failed'', status_reason = ''Missing required keyword'', status_code = SY01,
      accounts = []\<rparr>"
    using u rest by (cases ?r) simp
  have other: "paymentInstructionService ?h
     (Some \<lparr>instruction = JString ''PAY 500 NGN FROM ACCOUNT A1 FOR CREDIT TO ACCOUNT B2'',
            payload_accounts = ?as\<rparr>)
   = \<lparr>r_type = Null, r_amount = Null, r_currency = Null, r_debit_account = Null,
      r_credit_account = Null, r_execute_by = Null, status = ''failed'',
      status_reason = ''Missing required keyword'', status_code = SY01, accounts = []\<rparr>"
    by code_simp
  from t a whole other show ?thesis
    by simp
qed





text \<open>
  C10. Take an instruction with at least 8 tokens that begins with DEBIT or CREDIT and
  whose six mandatory anchors resolve in strictly increasing order, and let the optional
  ON anchor be the final token. Then parsing succeeds with \<open>execute_by\<close> null; the
  validator never answers DT01; and if all rules pass, the instruction is settled
  immediately (status "successful", AP00), with \<open>execute_by\<close> null in the response.
\<close>

theorem trailing_on_means_no_date:
  assumes "8 \<le> length (tokens s)"
    and "(tokens s ! 0 = ''DEBIT'' \<and> anchors = debitAnchors (tokens s))
         \<or> (tokens s ! 0 = ''CREDIT'' \<and> anchors = creditAnchors (tokens s))"
    and "- 1 \<notin> set (anchorList anchors)" and "sorted_wrt (<) (anchorList anchors)"
    and "onIndexOf (tokens s) anchors = int (length (tokens s)) - 1"
  shows "\<exists>pd. parseInstruction (JString s) = Inr pd \<and> execute_by pd = None
           \<and> validateBusinessRules h pd as \<noteq> Inr (Some (ruleFailure DT01))
           \<and> (validateBusinessRules h pd (AccountsArray accs) = Inr None \<longrightarrow>
                status (paymentInstructionService h
                  (Some \<lparr>instruction = JString s, payload_accounts = AccountsArray accs\<rparr>))
                  = ''successful''
                \<and> status_code (paymentInstructionService h
                  (Some \<lparr>instruction = JString s, payload_accounts = AccountsArray accs\<rparr>))
                  = AP00
                \<and> r_execute_by (paymentInstructionService h
                  (Some \<lparr>instruction = JString s, payload_accounts = AccountsArray accs\<rparr>))
                  = Null)"
proof -
  let ?p = "\<lparr>instruction = JString s, payload_accounts = AccountsArray accs\<rparr>"
  from parseInstruction_phases [OF assms(1,2)] assms(3,4) obtain pd where
    pd: "parseInstruction (JString s) = Inr pd"
    and e: "execute_by pd = executeByOf (tokens s) (onIndexOf (tokens s) anchors)"
    by simp
  from e assms(5) have none: "execute_by pd = None"
    by (simp add: executeByOf_last)
  have settled: "status (paymentInstructionService h (Some ?p)) = ''successful''
      \<and> status_code (paymentInstructionService h (Some ?p)) = AP00
      \<and> r_execute_by (paymentInstructionService h (Some ?p)) = Null"
    if "validateBusinessRules h pd (AccountsArray accs) = Inr None"
    using service_settlement [of ?p accs pd h] pd that none by simp
  show ?thesis
    using pd none validateBusinessRules_no_date [OF none] settled by blast
qed

theorem trailing_on_means_no_date_witness:
  "tokens ''CREDIT 40 GBP TO ACCOUNT b FOR DEBIT FROM ACCOUNT a ON''
     = [''CREDIT'', ''40'', ''GBP'', ''TO'', ''ACCOUNT'', ''B'', ''FOR'', ''DEBIT'', ''FROM'',
        ''ACCOUNT'', ''A'', ''ON'']
   \<and> creditAnchors (tokens ''CREDIT 40 GBP TO ACCOUNT b FOR DEBIT FROM ACCOUNT a ON'')
     = (3, 4, 6, 7, 8, 9)
   \<and> onIndexOf (tokens ''CREDIT 40 GBP TO ACCOUNT b FOR DEBIT FROM ACCOUNT a ON'') (3, 4, 6, 7, 8, 9)
     = 11
   \<and> parseInstruction (JString ''CREDIT 40 GBP TO ACCOUNT b FOR DEBIT FROM ACCOUNT a ON'')
     = Inr \<lparr>amount = ''40'', currency = ''GBP'', debit_account = ''a'', credit_account = ''b'',
            execute_by = None, instruction_type = ''CREDIT''\<rparr>
   \<and> status_code (paymentInstructionService \<lparr>currentTime = 0, localTZA = 0\<rparr>
       (Some \<lparr>instruction = JString ''CREDIT 40 GBP TO ACCOUNT b FOR DEBIT FROM ACCOUNT a ON'',
              payload_accounts = AccountsArray
                [\<lparr>acc_id = ''a'', balance = Num 40, acc_currency = ''gbp'', balance_before = None\<rparr>,
                 \<lparr>acc_id = ''b'', balance = Num 0, acc_currency = ''GBP'', balance_before = None\<rparr>]\<rparr>))
     = AP00
   \<and> r_execute_by (paymentInstructionService \<lparr>currentTime = 0, localTZA = 0\<rparr>
       (Some \<lparr>instruction = JString ''CREDIT 40 GBP TO ACCOUNT b FOR DEBIT FROM ACCOUNT a ON'',
              payload_accounts = AccountsArray
                [\<lparr>acc_id = ''a'', balance = Num 40, acc_currency = ''gbp'', balance_before = None\<rparr>,
                 \<lparr>acc_id = ''b'', balance = Num 0, acc_currency = ''GBP'', balance_before = None\<rparr>]\<rparr>))
     = Null"
proof -
  let ?s = "''CREDIT 40 GBP TO ACCOUNT b FOR DEBIT FROM ACCOUNT a ON''"
  let ?h = "\<lparr>currentTime = 0, localTZA = 0\<rparr>"
  let ?accs = "[\<lparr>acc_id = ''a'', balance = Num 40, acc_currency = ''gbp'', balance_before = None\<rparr>,
    \<lparr>acc_id = ''b'', balance = Num 0, acc_currency = ''GBP'', balance_before = None\<rparr>]"
  let ?pd = "\<lparr>amount = ''40'', currency = ''GBP'', debit_account = ''a'', credit_account = ''b'',
    execute_by = None, instruction_type = ''CREDIT''\<rparr>"
  have t: "tokens ?s = [''CREDIT'', ''40'', ''GBP'', ''TO'', ''ACCOUNT'', ''B'', ''FOR'', ''DEBIT'',
      ''FROM'', ''ACCOUNT'', ''A'', ''ON'']"
    by code_simp
  have a: "creditAnchors (tokens ?s) = (3, 4, 6, 7, 8, 9)"
    by code_simp
  have on: "onIndexOf (tokens ?s) (3, 4, 6, 7, 8, 9) = 11"
    by code_simp
  have p: "parseInstruction (JString ?s) = Inr ?pd"
    by code_simp
  have v: "validateBusinessRules ?h ?pd (AccountsArray ?accs) = Inr None"
    by code_simp
  have pre: "8 \<le> length (tokens ?s)" "tokens ?s ! 0 = ''CREDIT''"
    "- 1 \<notin> set (anchorList (creditAnchors (tokens ?s)))"
    "sorted_wrt (<) (anchorList (creditAnchors (tokens ?s)))"
    "onIndexOf (tokens ?s) (creditAnchors (tokens ?s)) = int (length (tokens ?s)) - 1"
    unfolding a on by (simp_all add: t)
  from trailing_on_means_no_date [of ?s "creditAnchors (tokens ?s)" ?h "AccountsArray ?accs" ?accs]
    pre p v
  have "status_code (paymentInstructionService ?h
          (Some \<lparr>instruction = JString ?s, payload_accounts = AccountsArray ?accs\<rparr>)) = AP00
        \<and> r_execute_by (paymentInstructionService ?h
          (Some \<lparr>instruction = JString ?s, payload_accounts = AccountsArray ?accs\<rparr>)) = Null"
    by auto
  with t a on p show ?thesis
    by simp
qed

end
